theory Spec2Isabelle
  imports Main
begin

section \<open>Planner/Executor example: persistence tool, configuration, coordinator\<close>

text \<open>
  The development embeds the three Python modules of the example:
  \<^item> \<^verbatim>\<open>tools.py\<close>: \<^verbatim>\<open>save_plan_to_file\<close>, which numbers the plan steps and writes
    them to a file below the \<^verbatim>\<open>logs\<close> directory;
  \<^item> \<^verbatim>\<open>config.py\<close>: \<^verbatim>\<open>get_llm_config\<close>, which reads one environment variable;
  \<^item> \<^verbatim>\<open>agent.py\<close>: \<^verbatim>\<open>create_planner_executor_agents\<close>, which configures the group
    chat.

  A Python \<^verbatim>\<open>str\<close> is modelled by the byte string of its UTF-8 encoding. The
  program only concatenates strings and inserts ASCII characters (digits, dot, space,
  newline, slash), and UTF-8 encoding commutes with that, so the bytes written are the
  model's string. A \<^verbatim>\<open>str\<close> that has no UTF-8 encoding (a lone surrogate) is outside
  the model. Paths follow the POSIX flavour of \<^verbatim>\<open>pathlib\<close>, and text files are written
  without newline translation, as on POSIX.
\<close>

subsection \<open>Formatting the plan (tools.py, line 36)\<close>

text \<open>The digit of a number below ten, as \<^verbatim>\<open>str\<close> prints it.\<close>

definition digit_char :: "nat \<Rightarrow> char" where
  "digit_char d = ''0123456789'' ! d"

text \<open>
  \<^verbatim>\<open>f"{n}"\<close> for a non-negative \<^verbatim>\<open>int\<close>: the decimal numeral without leading zeros.
\<close>

function str_nat :: "nat \<Rightarrow> string" where
  "str_nat n =
     (if n < 10 then [digit_char n] else str_nat (n div 10) @ [digit_char (n mod 10)])"
  by pat_completeness auto
termination
  by (relation "measure id") auto

declare str_nat.simps [simp del]

text \<open>
  \<^verbatim>\<open>lines = [f"{i+1}. {step}\n" for i, step in enumerate(steps)]\<close>
\<close>

definition plan_lines :: "string list \<Rightarrow> string list" where
  "plan_lines steps =
     map (\<lambda>(i, step). str_nat (i + 1) @ ''. '' @ step @ ''\<newline>'') (enumerate 0 steps)"

text \<open>\<^verbatim>\<open>"".join(lines)\<close>, the text handed to \<^verbatim>\<open>write_text\<close> (line 37).\<close>

definition plan_text :: "string list \<Rightarrow> string" where
  "plan_text steps = concat (plan_lines steps)"

text \<open>
  The lines of a text file, used to state what the written file looks like: every newline
  character ends a line, and a last piece without a newline counts when it is not empty.
\<close>

fun lines_acc :: "string \<Rightarrow> string \<Rightarrow> string list" where
  "lines_acc acc [] = (if acc = [] then [] else [acc])"
| "lines_acc acc (c # cs) =
     (if c = CHR ''\<newline>'' then acc # lines_acc [] cs else lines_acc (acc @ [c]) cs)"

definition file_lines :: "string \<Rightarrow> string list" where
  "file_lines text = lines_acc [] text"

subsection \<open>Paths (pathlib, POSIX flavour)\<close>

text \<open>
  A \<^verbatim>\<open>PurePosixPath\<close> after parsing: the root (\<^verbatim>\<open>""\<close>, \<^verbatim>\<open>"/"\<close> or \<^verbatim>\<open>"//"\<close>) and the
  components. There is no drive on POSIX.
\<close>

datatype ppath = PPath (proot: string) (ptail: "string list")

text \<open>\<^verbatim>\<open>str.split("/")\<close>: the pieces between slashes, empty pieces included.\<close>

fun split_acc :: "string \<Rightarrow> string \<Rightarrow> string list" where
  "split_acc acc [] = [acc]"
| "split_acc acc (c # cs) =
     (if c = CHR ''/'' then acc # split_acc [] cs else split_acc (acc @ [c]) cs)"

definition split_sep :: "string \<Rightarrow> string list" where
  "split_sep s = split_acc [] s"

text \<open>\<^verbatim>\<open>"/".join(parts)\<close>\<close>

fun sep_join :: "string list \<Rightarrow> string" where
  "sep_join [] = []"
| "sep_join [x] = x"
| "sep_join (x # y # ys) = x @ ''/'' @ sep_join (y # ys)"

text \<open>
  \<^verbatim>\<open>posixpath.splitroot\<close>: no leading slash gives a relative path; exactly two leading
  slashes are kept as the root \<^verbatim>\<open>"//"\<close>; one, or three and more, give the root \<^verbatim>\<open>"/"\<close>.
\<close>

fun splitroot :: "string \<Rightarrow> string \<times> string" where
  "splitroot [] = ([], [])"
| "splitroot (c # cs) =
     (if c \<noteq> CHR ''/'' then ([], c # cs)
      else if take 1 cs \<noteq> ''/'' \<or> take 1 (drop 1 cs) = ''/'' then (''/'', cs)
      else (''//'', drop 1 cs))"

text \<open>
  Parsing a path string: the root is split off, the rest is cut at the slashes, and the
  empty pieces and the pieces \<^verbatim>\<open>"."\<close> are dropped. Pieces \<^verbatim>\<open>".."\<close> stay.
\<close>

definition parse_path :: "string \<Rightarrow> ppath" where
  "parse_path s =
     (case splitroot s of
        (r, rel) \<Rightarrow> PPath r (filter (\<lambda>x. x \<noteq> [] \<and> x \<noteq> ''.'') (split_sep rel)))"

text \<open>\<^verbatim>\<open>str(path)\<close>: root and joined components; the empty path prints as a dot.\<close>

definition str_path :: "ppath \<Rightarrow> string" where
  "str_path p =
     (let s = proot p @ sep_join (ptail p) in if s = [] then ''.'' else s)"

text \<open>
  \<^verbatim>\<open>path / key\<close>: an absolute right operand replaces the left operand; a relative one
  appends its components.
\<close>

definition truediv :: "ppath \<Rightarrow> string \<Rightarrow> ppath" where
  "truediv p key =
     (let q = parse_path key
      in if proot q \<noteq> [] then q else PPath (proot p) (ptail p @ ptail q))"

text \<open>\<^verbatim>\<open>path.parent\<close>: the last component dropped; a path without components is its own parent.\<close>

definition parent :: "ppath \<Rightarrow> ppath" where
  "parent p = PPath (proot p) (butlast (ptail p))"

datatype os_error = ENOENT | EEXIST | ENOTDIR | EISDIR | EACCES | EROFS | ENOSPC

datatype py_error = IndexError | OSError os_error

text \<open>
  \<^verbatim>\<open>path.parents[i]\<close>: the \<open>i\<close>-th ancestor, counted from the parent; \<^verbatim>\<open>IndexError\<close> when
  the path has no more than \<open>i\<close> components.
\<close>

definition parents :: "ppath \<Rightarrow> nat \<Rightarrow> py_error + ppath" where
  "parents p i =
     (if i < length (ptail p)
      then Inr (PPath (proot p) (take (length (ptail p) - i - 1) (ptail p)))
      else Inl IndexError)"

subsection \<open>The file system\<close>

text \<open>
  The file system is the environment of \<^verbatim>\<open>save_plan_to_file\<close>. Its state is a tree of
  directories and regular files, addressed by the list of component names from the root
  (the root itself is the empty list and always a directory), the working directory, an
  oracle saying which system calls the environment refuses (permission denied, read-only
  file system, no space left), and the log of the mutating system calls attempted so far.
  Symbolic links are not modelled.
\<close>

datatype node = Dir | File string

datatype syscall = Mkdir ppath | Open ppath | Write "string list" string

datatype fault = Denied | ReadOnly | NoSpace

fun errno_of :: "fault \<Rightarrow> os_error" where
  "errno_of Denied = EACCES"
| "errno_of ReadOnly = EROFS"
| "errno_of NoSpace = ENOSPC"

record fs =
  nodes :: "string list \<rightharpoonup> node"
  cwd :: "string list"
  faults :: "syscall \<Rightarrow> fault option"
  oplog :: "syscall list"

definition node_at :: "(string list \<rightharpoonup> node) \<Rightarrow> string list \<Rightarrow> node option" where
  "node_at ns k = (if k = [] then Some Dir else ns k)"

text \<open>
  Path resolution by the kernel: every component is entered from a directory, and
  \<^verbatim>\<open>".."\<close> goes to the parent (the root is its own parent). The last component need not
  exist.
\<close>

fun walk :: "(string list \<rightharpoonup> node) \<Rightarrow> string list \<Rightarrow> string list \<Rightarrow> os_error + string list" where
  "walk ns cur [] = Inr cur"
| "walk ns cur (c # cs) =
     (case node_at ns cur of
        None \<Rightarrow> Inl ENOENT
      | Some (File _) \<Rightarrow> Inl ENOTDIR
      | Some Dir \<Rightarrow> walk ns (if c = ''..'' then butlast cur else cur @ [c]) cs)"

definition locate :: "fs \<Rightarrow> ppath \<Rightarrow> os_error + string list" where
  "locate s p = walk (nodes s) (if proot p = [] then cwd s else []) (ptail p)"

text \<open>Every mutating system call is entered in the log when it is attempted.\<close>

definition logged :: "syscall \<Rightarrow> fs \<Rightarrow> fs" where
  "logged c s = s\<lparr>oplog := oplog s @ [c]\<rparr>"

text \<open>
  \<^verbatim>\<open>os.mkdir(path)\<close>: refused by the environment, or failing because the path does not
  resolve or exists already (whatever it is), or creating the directory.
\<close>

definition os_mkdir :: "ppath \<Rightarrow> fs \<Rightarrow> (os_error + unit) \<times> fs" where
  "os_mkdir p s =
     (case faults s (Mkdir p) of
        Some f \<Rightarrow> (Inl (errno_of f), logged (Mkdir p) s)
      | None \<Rightarrow>
          (case locate s p of
             Inl e \<Rightarrow> (Inl e, logged (Mkdir p) s)
           | Inr k \<Rightarrow>
               (if node_at (nodes s) k = None
                then (Inr (), (logged (Mkdir p) s)\<lparr>nodes := (nodes s)(k \<mapsto> Dir)\<rparr>)
                else (Inl EEXIST, logged (Mkdir p) s))))"

text \<open>\<^verbatim>\<open>path.is_dir()\<close>: false when the path does not resolve.\<close>

definition is_dir :: "ppath \<Rightarrow> fs \<Rightarrow> bool" where
  "is_dir p s =
     (case locate s p of Inl _ \<Rightarrow> False | Inr k \<Rightarrow> node_at (nodes s) k = Some Dir)"

text \<open>
  \<^verbatim>\<open>Path.mkdir(parents, exist_ok)\<close> as pathlib writes it:
  \<^verbatim>\<open>
    try:
        os.mkdir(self, mode)
    except FileNotFoundError:
        if not parents or self.parent == self:
            raise
        self.parent.mkdir(parents=True, exist_ok=True)
        self.mkdir(mode, parents=False, exist_ok=exist_ok)
    except OSError:
        if not exist_ok or not self.is_dir():
            raise
  \<close>
\<close>

function path_mkdir :: "bool \<Rightarrow> bool \<Rightarrow> ppath \<Rightarrow> fs \<Rightarrow> (os_error + unit) \<times> fs" where
  "path_mkdir pars exist_ok p s =
     (case os_mkdir p s of
        (Inr u, s1) \<Rightarrow> (Inr (), s1)
      | (Inl e, s1) \<Rightarrow>
          (if e = ENOENT then
             (if \<not> pars \<or> parent p = p then (Inl e, s1)
              else
                (case path_mkdir True True (parent p) s1 of
                   (Inl e', s2) \<Rightarrow> (Inl e', s2)
                 | (Inr u, s2) \<Rightarrow> path_mkdir False exist_ok p s2))
           else if \<not> exist_ok \<or> \<not> is_dir p s1 then (Inl e, s1)
           else (Inr (), s1)))"
  by pat_completeness auto
termination
proof (relation "measure (\<lambda>(pars, exist_ok, p, s). 2 * length (ptail p) + (if pars then 1 else 0))")
  show "wf (measure (\<lambda>(pars, exist_ok, p, s). 2 * length (ptail p) + (if pars then 1 else 0)))"
    by simp
next
  fix pars exist_ok :: bool and p :: ppath and s s1 :: fs and e :: os_error
  assume "\<not> (\<not> pars \<or> parent p = p)"
  then have "ptail p \<noteq> []"
    by (cases p) (auto simp: parent_def)
  then show "((True, True, parent p, s1), pars, exist_ok, p, s)
      \<in> measure (\<lambda>(pars, exist_ok, p, s). 2 * length (ptail p) + (if pars then 1 else 0))"
    by (cases "ptail p" rule: rev_cases) (auto simp: parent_def)
next
  fix pars exist_ok :: bool and p :: ppath and s s1 s2 :: fs
  assume "\<not> (\<not> pars \<or> parent p = p)"
  then show "((False, exist_ok, p, s2), pars, exist_ok, p, s)
      \<in> measure (\<lambda>(pars, exist_ok, p, s). 2 * length (ptail p) + (if pars then 1 else 0))"
    by simp
qed

declare path_mkdir.simps [simp del]

text \<open>
  \<^verbatim>\<open>open(path, "w")\<close>: creates the file or truncates it; the result stands for the file
  descriptor and is the place of the file in the tree.
\<close>

definition os_open_w :: "ppath \<Rightarrow> fs \<Rightarrow> (os_error + string list) \<times> fs" where
  "os_open_w p s =
     (case faults s (Open p) of
        Some f \<Rightarrow> (Inl (errno_of f), logged (Open p) s)
      | None \<Rightarrow>
          (case locate s p of
             Inl e \<Rightarrow> (Inl e, logged (Open p) s)
           | Inr k \<Rightarrow>
               (if node_at (nodes s) k = Some Dir then (Inl EISDIR, logged (Open p) s)
                else (Inr k, (logged (Open p) s)\<lparr>nodes := (nodes s)(k \<mapsto> File [])\<rparr>))))"

text \<open>
  Writing the whole text to the open file and closing it. When the environment refuses
  the write, the file stays as \<^verbatim>\<open>open\<close> left it: empty.
\<close>

definition os_write :: "string list \<Rightarrow> string \<Rightarrow> fs \<Rightarrow> (os_error + unit) \<times> fs" where
  "os_write k data s =
     (case faults s (Write k data) of
        Some f \<Rightarrow> (Inl (errno_of f), logged (Write k data) s)
      | None \<Rightarrow> (Inr (), (logged (Write k data) s)\<lparr>nodes := (nodes s)(k \<mapsto> File data)\<rparr>))"

text \<open>
  \<^verbatim>\<open>Path.write_text(data, encoding="utf-8")\<close>: open for writing, write, close. The number
  of characters it returns is not used by the caller.
\<close>

definition write_text :: "ppath \<Rightarrow> string \<Rightarrow> fs \<Rightarrow> (os_error + unit) \<times> fs" where
  "write_text p data s =
     (case os_open_w p s of
        (Inl e, s1) \<Rightarrow> (Inl e, s1)
      | (Inr k, s1) \<Rightarrow> os_write k data s1)"

text \<open>\<^verbatim>\<open>Path.read_text()\<close>, to observe what a file holds.\<close>

definition read_text :: "ppath \<Rightarrow> fs \<Rightarrow> os_error + string" where
  "read_text p s =
     (case locate s p of
        Inl e \<Rightarrow> Inl e
      | Inr k \<Rightarrow>
          (case node_at (nodes s) k of
             None \<Rightarrow> Inl ENOENT
           | Some Dir \<Rightarrow> Inl EISDIR
           | Some (File c) \<Rightarrow> Inr c))"

subsection \<open>The persistence tool (tools.py)\<close>

text \<open>
  \<^verbatim>\<open>
  def save_plan_to_file(steps, filename="autogen_plan.txt"):
      root = Path(__file__).resolve().parents[2]
      logs_dir = root / "logs"
      logs_dir.mkdir(parents=True, exist_ok=True)
      path = logs_dir / filename
      lines = [f"{i+1}. {step}\n" for i, step in enumerate(steps)]
      path.write_text("".join(lines), encoding="utf-8")
      return str(path)
  \<close>
  The first argument of the model, \<open>this_file\<close>, is the string of
  \<^verbatim>\<open>Path(__file__).resolve()\<close>: where the module is installed. The result is the value
  returned or the exception raised, together with the file system the call leaves.
\<close>

definition default_filename :: string where
  "default_filename = ''autogen_plan.txt''"

definition save_plan_to_file ::
  "string \<Rightarrow> string list \<Rightarrow> string \<Rightarrow> fs \<Rightarrow> (py_error + string) \<times> fs" where
  "save_plan_to_file this_file steps filename s =
     (case parents (parse_path this_file) 2 of
        Inl e \<Rightarrow> (Inl e, s)
      | Inr root \<Rightarrow>
          (let logs_dir = truediv root ''logs'' in
           case path_mkdir True True logs_dir s of
             (Inl e, s1) \<Rightarrow> (Inl (OSError e), s1)
           | (Inr u, s1) \<Rightarrow>
               (let path = truediv logs_dir filename;
                    lines = plan_lines steps
                in case write_text path (concat lines) s1 of
                     (Inl e, s2) \<Rightarrow> (Inl (OSError e), s2)
                   | (Inr u, s2) \<Rightarrow> (Inr (str_path path), s2))))"

subsection \<open>The configuration provider (config.py)\<close>

text \<open>
  The process environment is a map from variable names to values;
  \<^verbatim>\<open>os.getenv(key, default)\<close> gives the value when the variable is set, also when it is
  set to the empty string, and the default otherwise.
\<close>

type_synonym environ = "string \<rightharpoonup> string"

definition getenv :: "environ \<Rightarrow> string \<Rightarrow> string \<Rightarrow> string" where
  "getenv env key dflt = (case env key of None \<Rightarrow> dflt | Some v \<Rightarrow> v)"

text \<open>
  A dictionary literal is the list of its items in the order written; \<open>map_of\<close> looks a
  key up.
\<close>

type_synonym llm_config = "(string \<times> (string \<times> string) list list) list"

definition get_llm_config :: "environ \<Rightarrow> llm_config" where
  "get_llm_config env =
     (let base_url = getenv env ''OLLAMA_BASE_URL'' ''http://localhost:11434/v1'';
          config_list =
            [[(''model'', ''mistral:latest''),
              (''api_key'', ''NA''),
              (''base_url'', base_url)]]
      in [(''config_list'', config_list)])"

subsection \<open>The conversation coordinator (agent.py)\<close>

datatype agent =
  UserProxyAgent string bool string
| AssistantAgent string llm_config string

fun agent_name :: "agent \<Rightarrow> string" where
  "agent_name (UserProxyAgent n code_execution_config human_input_mode) = n"
| "agent_name (AssistantAgent n cfg system_message) = n"

record message =
  sender :: string
  content :: string

record groupchat =
  agents :: "agent list"
  messages :: "message list"
  max_round :: nat

record group_chat_manager =
  manager_name :: string
  manager_groupchat :: groupchat
  manager_llm_config :: llm_config
  manager_system_message :: string

text \<open>The tool registered with the user proxy: the persistence tool with its default file name.\<close>

definition save_plan_tool :: "string \<Rightarrow> string list \<Rightarrow> fs \<Rightarrow> (py_error + string) \<times> fs" where
  "save_plan_tool this_file steps s = save_plan_to_file this_file steps default_filename s"

definition create_planner_executor_agents :: "environ \<Rightarrow> agent \<times> group_chat_manager" where
  "create_planner_executor_agents env =
     (let llm_config = get_llm_config env;
          user_proxy = UserProxyAgent ''user'' False ''NEVER'';
          planner = AssistantAgent ''planner'' llm_config
            (''You are an MLOps planning assistant. Given a high-level goal, '' @
             ''produce a numbered list of 4-8 concrete steps to achieve it. '' @
             ''Focus on practical, implementation-oriented actions.'');
          executor = AssistantAgent ''executor'' llm_config
            (''You are an MLOps execution assistant. For each step in the '' @
             ''plan, describe briefly how to carry it out in practice, then '' @
             ''call `save_plan_tool` once you have the final plan ready.'');
          groupchat = \<lparr>agents = [user_proxy, planner, executor], messages = [], max_round = 10\<rparr>;
          manager = \<lparr>manager_name = ''supervisor'',
                     manager_groupchat = groupchat,
                     manager_llm_config = llm_config,
                     manager_system_message =
                       ''You are a supervisor that coordinates a planner and an executor '' @
                       ''agent. Ensure the planner proposes a reasonable plan first, '' @
                       ''then have the executor elaborate on each step and call tools '' @
                       ''when needed. Stop the conversation when a clear plan and '' @
                       ''execution notes have been produced.''\<rparr>
      in (user_proxy, manager))"

text \<open>
  Modelled from the spec: the conversation session and its turn loop. The repository
  imports \<^verbatim>\<open>GroupChat\<close> and \<^verbatim>\<open>GroupChatManager\<close> from the orchestration library and has
  no code for them; the spec describes the session as the ordered list of messages, a round
  counter and a termination flag, changed by one turn at a time, with one role producing
  one message per turn, the goal being the first message, and the conversation ending
  when the manager judges it complete or the round counter reaches the configured
  maximum. The manager and the roles answer through a language model: which agent speaks
  next, what it says and whether the manager judges the exchange complete are the three
  functions of \<open>backend\<close>, taken as parameters.
\<close>

record session =
  transcript :: "message list"
  round_counter :: nat
  terminated :: bool

record backend =
  select_speaker :: "message list \<Rightarrow> nat"
  generate_reply :: "agent \<Rightarrow> message list \<Rightarrow> string"
  judged_complete :: "message list \<Rightarrow> bool"

text \<open>Modelled from the spec: the session when the goal is submitted, before any turn.\<close>

definition initial_session :: session where
  "initial_session = \<lparr>transcript = [], round_counter = 0, terminated = False\<rparr>"

text \<open>
  Modelled from the spec: one turn. The first message is the goal, sent by the user
  proxy (the agent that initiates the chat); later the manager picks one of the agents of
  the group chat.
\<close>

definition turn :: "backend \<Rightarrow> agent \<Rightarrow> groupchat \<Rightarrow> string \<Rightarrow> session \<Rightarrow> session" where
  "turn b user_proxy gc goal s =
     (if terminated s then s
      else if max_round gc \<le> round_counter s \<or> agents gc = [] then s\<lparr>terminated := True\<rparr>
      else
        (let msg =
               (if transcript s = [] then \<lparr>sender = agent_name user_proxy, content = goal\<rparr>
                else
                  (let speaker = agents gc ! (select_speaker b (transcript s) mod length (agents gc))
                   in \<lparr>sender = agent_name speaker,
                       content = generate_reply b speaker (transcript s)\<rparr>));
             t = transcript s @ [msg];
             r = round_counter s + 1
         in \<lparr>transcript = t, round_counter = r,
             terminated = (judged_complete b t \<or> max_round gc \<le> r)\<rparr>))"

text \<open>Modelled from the spec: the session after \<open>n\<close> turns.\<close>

fun run_turns :: "backend \<Rightarrow> agent \<Rightarrow> groupchat \<Rightarrow> string \<Rightarrow> nat \<Rightarrow> session" where
  "run_turns b user_proxy gc goal 0 = initial_session"
| "run_turns b user_proxy gc goal (Suc n) = turn b user_proxy gc goal (run_turns b user_proxy gc goal n)"

text \<open>
  Modelled from the spec: \<^verbatim>\<open>user_proxy.initiate_chat(manager, message=user_goal)\<close> runs
  the conversation to its end. One turn more than the round maximum is always enough
  (lemma \<open>initiate_chat_terminated\<close>).
\<close>

definition initiate_chat :: "backend \<Rightarrow> agent \<times> group_chat_manager \<Rightarrow> string \<Rightarrow> session" where
  "initiate_chat b am goal =
     (case am of (user_proxy, manager) \<Rightarrow>
        run_turns b user_proxy (manager_groupchat manager) goal
          (Suc (max_round (manager_groupchat manager))))"


subsection \<open>Notions used to state the properties\<close>

text \<open>
  The lines the spec expects in the file: the number of the step, counted from \<open>n + 1\<close>,
  a dot, a space, and the step.
\<close>

definition numbered :: "nat \<Rightarrow> string list \<Rightarrow> string list" where
  "numbered n steps = map (\<lambda>(i, step). str_nat (i + 1) @ ''. '' @ step) (enumerate n steps)"

text \<open>
  A path in the form \<^verbatim>\<open>pathlib\<close> prints: every component is non-empty, is not a
  single dot and has no slash.
\<close>

definition normal_part :: "string \<Rightarrow> bool" where
  "normal_part c \<longleftrightarrow> c \<noteq> [] \<and> c \<noteq> ''.'' \<and> CHR ''/'' \<notin> set c"

definition normal_path :: "ppath \<Rightarrow> bool" where
  "normal_path p \<longleftrightarrow> proot p \<in> {[], ''/'', ''//''} \<and> list_all normal_part (ptail p)"

text \<open>
  A later state of the file system keeps the directories, the working directory and the
  environment's refusals of an earlier one. No operation of the model removes a directory.
\<close>

definition dirs_kept :: "fs \<Rightarrow> fs \<Rightarrow> bool" where
  "dirs_kept s s' \<longleftrightarrow>
     cwd s' = cwd s \<and> faults s' = faults s \<and>
     (\<forall>x. node_at (nodes s) x = Some Dir \<longrightarrow> node_at (nodes s') x = Some Dir)"

text \<open>How often a file was opened for writing, and how often a text was written.\<close>

fun is_open :: "syscall \<Rightarrow> bool" where
  "is_open (Open p) = True"
| "is_open c = False"

fun is_write :: "syscall \<Rightarrow> bool" where
  "is_write (Write k d) = True"
| "is_write c = False"

definition open_attempts :: "fs \<Rightarrow> nat" where
  "open_attempts s = length (filter is_open (oplog s))"

definition write_attempts :: "fs \<Rightarrow> nat" where
  "write_attempts s = length (filter is_write (oplog s))"

subsection \<open>Example states\<close>

text \<open>
  A checkout of the repository in \<^verbatim>\<open>/repo\<close>, before the first run: there is no
  \<^verbatim>\<open>logs\<close> directory yet, and the environment refuses nothing.
\<close>

definition example_file :: string where
  "example_file = ''/repo/AutoGen/src/tools.py''"

definition example_fs :: fs where
  "example_fs =
     \<lparr>nodes = [[''repo''] \<mapsto> Dir, [''repo'', ''AutoGen''] \<mapsto> Dir,
               [''repo'', ''AutoGen'', ''src''] \<mapsto> Dir,
               [''repo'', ''AutoGen'', ''src'', ''tools.py''] \<mapsto> File ''code'',
               [''tmp''] \<mapsto> Dir],
      cwd = [''repo''],
      faults = (\<lambda>c. None),
      oplog = []\<rparr>"

text \<open>
  The same checkout later: the \<^verbatim>\<open>logs\<close> directory exists and holds an older plan, and
  the process runs in another working directory.
\<close>

definition used_fs :: fs where
  "used_fs = example_fs\<lparr>cwd := [''tmp''],
      nodes := (nodes example_fs)([''repo'', ''logs''] \<mapsto> Dir,
                   [''repo'', ''logs'', ''autogen_plan.txt''] \<mapsto> File ''old notes'')\<rparr>"

text \<open>The fresh checkout on a read-only file system: every \<^verbatim>\<open>mkdir\<close> is refused.\<close>

definition readonly_fs :: fs where
  "readonly_fs =
     example_fs\<lparr>faults := (\<lambda>c. case c of Mkdir p \<Rightarrow> Some ReadOnly | _ \<Rightarrow> None)\<rparr>"

text \<open>The used checkout on a full disk: every write is refused.\<close>

definition full_fs :: fs where
  "full_fs =
     used_fs\<lparr>faults := (\<lambda>c. case c of Write k d \<Rightarrow> Some NoSpace | _ \<Rightarrow> None)\<rparr>"

text \<open>A language model that makes the manager pick the executor at every turn.\<close>

definition executor_first :: backend where
  "executor_first =
     \<lparr>select_speaker = (\<lambda>t. 2), generate_reply = (\<lambda>a t. ''notes''),
      judged_complete = (\<lambda>t. False)\<rparr>"


section \<open>Lemmas\<close>

subsection \<open>The plan text and its lines\<close>

lemma digit_char_in: "d < 10 \<Longrightarrow> digit_char d \<in> set ''0123456789''"
  unfolding digit_char_def by (rule nth_mem) simp

lemma str_nat_digits: "set (str_nat n) \<subseteq> set ''0123456789''"
proof (induction n rule: str_nat.induct)
  case (1 n)
  show ?case
  proof (cases "n < 10")
    case True
    then show ?thesis using digit_char_in [of n] by (subst str_nat.simps) simp
  next
    case False
    have "n mod 10 < 10" by simp
    then have "digit_char (n mod 10) \<in> set ''0123456789''" by (rule digit_char_in)
    with False 1 show ?thesis by (subst str_nat.simps) simp
  qed
qed

lemma str_nat_no_newline: "CHR ''\<newline>'' \<notin> set (str_nat n)"
  using str_nat_digits [of n] by auto

lemma lines_acc_line:
  "CHR ''\<newline>'' \<notin> set l \<Longrightarrow>
   lines_acc acc (l @ CHR ''\<newline>'' # rest) = (acc @ l) # lines_acc [] rest"
  by (induction l arbitrary: acc) auto

lemma file_lines_concat:
  "\<forall>l \<in> set ls. CHR ''\<newline>'' \<notin> set l \<Longrightarrow>
   file_lines (concat (map (\<lambda>l. l @ ''\<newline>'') ls)) = ls"
  unfolding file_lines_def
proof (induction ls)
  case Nil
  then show ?case by simp
next
  case (Cons l ls)
  then show ?case using lines_acc_line [of l "[]"] by simp
qed

lemma plan_lines_numbered:
  "plan_lines steps = map (\<lambda>l. l @ ''\<newline>'') (numbered 0 steps)"
  by (simp add: plan_lines_def numbered_def case_prod_unfold)

lemma numbered_no_newline:
  "\<forall>st \<in> set steps. CHR ''\<newline>'' \<notin> set st \<Longrightarrow>
   \<forall>l \<in> set (numbered n steps). CHR ''\<newline>'' \<notin> set l"
  by (induction steps arbitrary: n) (auto simp: numbered_def str_nat_no_newline)

lemma file_lines_plan_text:
  assumes "\<forall>st \<in> set steps. CHR ''\<newline>'' \<notin> set st"
  shows "file_lines (plan_text steps) = numbered 0 steps"
  unfolding plan_text_def plan_lines_numbered
  by (rule file_lines_concat) (rule numbered_no_newline [OF assms])

lemma length_numbered: "length (numbered n steps) = length steps"
  by (simp add: numbered_def)

lemma nth_numbered:
  "i < length steps \<Longrightarrow> numbered n steps ! i = str_nat (n + i + 1) @ ''. '' @ steps ! i"
  by (simp add: numbered_def nth_enumerate_eq)


subsection \<open>Paths: parsing and printing\<close>

lemma split_acc_no_sep:
  "CHR ''/'' \<notin> set acc \<Longrightarrow> \<forall>x \<in> set (split_acc acc s). CHR ''/'' \<notin> set x"
proof (induction s arbitrary: acc)
  case Nil
  then show ?case by simp
next
  case (Cons a s)
  show ?case
  proof (cases "a = CHR ''/''")
    case True
    with Cons.prems Cons.IH [of "[]"] show ?thesis by simp
  next
    case False
    with Cons.prems Cons.IH [of "acc @ [a]"] show ?thesis by simp
  qed
qed

lemma splitroot_root: "fst (splitroot s) \<in> {[], ''/'', ''//''}"
  by (cases s) auto

lemma normal_parse_path: "normal_path (parse_path s)"
proof -
  obtain r rel where sr: "splitroot s = (r, rel)" by force
  then have "r \<in> {[], ''/'', ''//''}" using splitroot_root [of s] by simp
  moreover have "list_all normal_part (filter (\<lambda>x. x \<noteq> [] \<and> x \<noteq> ''.'') (split_sep rel))"
    unfolding list_all_iff normal_part_def split_sep_def
    using split_acc_no_sep [of "[]" rel] by auto
  ultimately show ?thesis by (simp add: parse_path_def sr normal_path_def)
qed

lemma normal_truediv: "normal_path p \<Longrightarrow> normal_path (truediv p key)"
  using normal_parse_path [of key] by (auto simp: truediv_def Let_def normal_path_def)

lemma normal_parents: "normal_path p \<Longrightarrow> parents p i = Inr q \<Longrightarrow> normal_path q"
  by (auto simp: parents_def normal_path_def list_all_iff split: if_splits dest!: in_set_takeD)

lemma split_acc_part:
  "CHR ''/'' \<notin> set c \<Longrightarrow> split_acc acc (c @ rest) = split_acc (acc @ c) rest"
  by (induction c arbitrary: acc) auto

lemma split_acc_join:
  "list_all normal_part (c # cs) \<Longrightarrow> split_acc acc (sep_join (c # cs)) = (acc @ c) # cs"
proof (induction cs arbitrary: acc c)
  case Nil
  then show ?case using split_acc_part [of c acc "[]"] by (simp add: normal_part_def)
next
  case (Cons d cs)
  from Cons.prems have c: "CHR ''/'' \<notin> set c"
    by (simp add: normal_part_def)
  from Cons.prems have rest: "list_all normal_part (d # cs)"
    by simp
  have "split_acc acc (sep_join (c # d # cs)) = split_acc (acc @ c) (CHR ''/'' # sep_join (d # cs))"
    using split_acc_part [OF c, of acc] by simp
  also have "\<dots> = (acc @ c) # split_acc [] (sep_join (d # cs))" by simp
  also have "split_acc [] (sep_join (d # cs)) = d # cs"
    using Cons.IH [OF rest, of "[]"] by simp
  finally show ?case .
qed

lemma filter_split_join:
  assumes "list_all normal_part cs"
  shows "filter (\<lambda>x. x \<noteq> [] \<and> x \<noteq> ''.'') (split_sep (sep_join cs)) = cs"
proof (cases cs)
  case Nil
  then show ?thesis by (simp add: split_sep_def)
next
  case (Cons c cs')
  with assms have "split_sep (sep_join cs) = cs"
    using split_acc_join [of c cs' "[]"] by (simp add: split_sep_def)
  moreover from assms have "filter (\<lambda>x. x \<noteq> [] \<and> x \<noteq> ''.'') cs = cs"
    by (auto simp: list_all_iff normal_part_def intro!: filter_True)
  ultimately show ?thesis by simp
qed

lemma sep_join_head:
  "list_all normal_part cs \<Longrightarrow> take 1 (sep_join cs) \<noteq> ''/''"
proof (cases cs)
  case Nil
  then show ?thesis by simp
next
  case (Cons c cs')
  assume "list_all normal_part cs"
  with Cons obtain a c' where c: "c = a # c'" and a: "a \<noteq> CHR ''/''"
    by (cases c) (auto simp: normal_part_def)
  show ?thesis
    by (cases cs') (simp_all add: Cons c a)
qed

lemma splitroot_join:
  assumes "r \<in> {[], ''/'', ''//''}" and "list_all normal_part cs"
  shows "splitroot (r @ sep_join cs) = (r, sep_join cs)"
proof -
  note h = sep_join_head [OF assms(2)]
  from assms(1) consider "r = []" | "r = ''/''" | "r = ''//''" by blast
  then show ?thesis
  proof cases
    case 1
    with h show ?thesis by (cases "sep_join cs") simp_all
  next
    case 2
    with h show ?thesis by simp
  next
    case 3
    with h show ?thesis by simp
  qed
qed

lemma parse_root_join:
  assumes "r \<in> {[], ''/'', ''//''}" and "list_all normal_part cs"
  shows "parse_path (r @ sep_join cs) = PPath r cs"
  by (simp add: parse_path_def splitroot_join [OF assms] filter_split_join [OF assms(2)])

lemma parse_str_path:
  assumes "normal_path p"
  shows "parse_path (str_path p) = p"
proof (cases "proot p @ sep_join (ptail p) = []")
  case True
  then have "proot p = []" and "sep_join (ptail p) = []" by simp_all
  moreover from this(2) assms have "ptail p = []"
    by (cases "ptail p" rule: sep_join.cases) (auto simp: normal_path_def normal_part_def)
  ultimately have "p = PPath [] []" by (cases p) simp
  then show ?thesis by (simp add: str_path_def parse_path_def split_sep_def)
next
  case False
  then have "str_path p = proot p @ sep_join (ptail p)" by (simp add: str_path_def)
  with assms show ?thesis
    using parse_root_join [of "proot p" "ptail p"] by (cases p) (simp add: normal_path_def)
qed

lemma parse_path_absolute:
  "s \<noteq> [] \<Longrightarrow> hd s = CHR ''/'' \<Longrightarrow> proot (parse_path s) \<noteq> []"
  by (cases s) (auto simp: parse_path_def split: prod.splits)

lemma truediv_absolute:
  "s \<noteq> [] \<Longrightarrow> hd s = CHR ''/'' \<Longrightarrow> truediv p s = parse_path s"
  using parse_path_absolute [of s] by (simp add: truediv_def Let_def)


subsection \<open>The file system\<close>

lemma walk_dirs_kept:
  assumes "\<And>x. node_at ns x = Some Dir \<Longrightarrow> node_at ns' x = Some Dir"
  shows "walk ns cur cs = Inr k \<Longrightarrow> walk ns' cur cs = Inr k"
proof (induction cs arbitrary: cur)
  case Nil
  then show ?case by simp
next
  case (Cons c cs)
  from Cons.prems have d: "node_at ns cur = Some Dir"
    by (auto split: option.splits node.splits)
  then have d': "node_at ns' cur = Some Dir" by (rule assms)
  from Cons.prems d have "walk ns (if c = ''..'' then butlast cur else cur @ [c]) cs = Inr k"
    by simp
  then have "walk ns' (if c = ''..'' then butlast cur else cur @ [c]) cs = Inr k"
    by (rule Cons.IH)
  with d' show ?case by simp
qed

lemma node_at_upd_file:
  "node_at ns k \<noteq> Some Dir \<Longrightarrow> node_at ns x = Some Dir \<Longrightarrow>
   node_at (ns(k \<mapsto> File d)) x = Some Dir"
  by (auto simp: node_at_def)

lemma node_at_upd_same:
  "node_at ns k \<noteq> Some Dir \<Longrightarrow> node_at (ns(k \<mapsto> n)) k = Some n"
  by (auto simp: node_at_def)

lemma locate_eqI: "nodes s' = nodes s \<Longrightarrow> cwd s' = cwd s \<Longrightarrow> locate s' p = locate s p"
  by (cases "proot p = []") (simp_all add: locate_def)

lemma is_dir_eqI: "nodes s' = nodes s \<Longrightarrow> cwd s' = cwd s \<Longrightarrow> is_dir p s' = is_dir p s"
  using locate_eqI [of s' s p] by (simp add: is_dir_def split: sum.splits)

lemma read_text_eqI: "nodes s' = nodes s \<Longrightarrow> cwd s' = cwd s \<Longrightarrow> read_text p s' = read_text p s"
  using locate_eqI [of s' s p] by (simp add: read_text_def split: sum.splits)

lemma locate_walk:
  "locate s p = walk (nodes s) (if proot p = [] then cwd s else []) (ptail p)"
  by (simp add: locate_def)

lemma logged_simps [simp]:
  "nodes (logged c s) = nodes s" "cwd (logged c s) = cwd s"
  "faults (logged c s) = faults s" "oplog (logged c s) = oplog s @ [c]"
  by (simp_all add: logged_def)


lemma dirs_kept_refl: "dirs_kept s s"
  by (simp add: dirs_kept_def)

lemma dirs_kept_trans: "dirs_kept s s1 \<Longrightarrow> dirs_kept s1 s2 \<Longrightarrow> dirs_kept s s2"
  by (simp add: dirs_kept_def)

lemma dirs_kept_logged: "dirs_kept s (logged c s)"
  by (simp add: dirs_kept_def)

lemma dirs_kept_locate:
  assumes "dirs_kept s s'" and "locate s p = Inr k"
  shows "locate s' p = Inr k"
proof -
  from assms(2) have "walk (nodes s) (if proot p = [] then cwd s else []) (ptail p) = Inr k"
    by (simp add: locate_def)
  then have "walk (nodes s') (if proot p = [] then cwd s else []) (ptail p) = Inr k"
    by (rule walk_dirs_kept [rotated]) (use assms(1) in \<open>simp add: dirs_kept_def\<close>)
  moreover from assms(1) have "cwd s' = cwd s" by (simp add: dirs_kept_def)
  ultimately show ?thesis by (cases "proot p = []") (simp_all add: locate_def)
qed

lemma dirs_kept_is_dir:
  assumes "dirs_kept s s'" and "is_dir p s"
  shows "is_dir p s'"
proof -
  from assms(2) obtain k where k: "locate s p = Inr k" and d: "node_at (nodes s) k = Some Dir"
    by (cases "locate s p") (simp_all add: is_dir_def)
  from dirs_kept_locate [OF assms(1) k] have "locate s' p = Inr k" .
  moreover from assms(1) d have "node_at (nodes s') k = Some Dir" by (simp add: dirs_kept_def)
  ultimately show ?thesis by (simp add: is_dir_def)
qed

lemma dirs_kept_new_dir:
  "node_at (nodes s) k = None \<Longrightarrow> dirs_kept s ((logged c s)\<lparr>nodes := (nodes s)(k \<mapsto> Dir)\<rparr>)"
  by (auto simp: dirs_kept_def node_at_def)

lemma dirs_kept_file:
  "node_at (nodes s) k \<noteq> Some Dir \<Longrightarrow>
   dirs_kept s ((logged c s)\<lparr>nodes := (nodes s)(k \<mapsto> File d)\<rparr>)"
  by (auto simp: dirs_kept_def node_at_def)

lemma os_mkdir_kept: "os_mkdir p s = (r, s1) \<Longrightarrow> dirs_kept s s1"
  by (auto simp: os_mkdir_def dirs_kept_logged dirs_kept_new_dir
           split: option.splits sum.splits if_splits)

lemma os_mkdir_oplog: "os_mkdir p s = (r, s1) \<Longrightarrow> oplog s1 = oplog s @ [Mkdir p]"
  by (auto simp: os_mkdir_def split: option.splits sum.splits if_splits)

lemma os_mkdir_Inr_is_dir:
  assumes "os_mkdir p s = (Inr u, s1)"
  shows "is_dir p s1"
proof -
  from assms obtain k where k: "locate s p = Inr k" and n: "node_at (nodes s) k = None"
    and s1: "s1 = (logged (Mkdir p) s)\<lparr>nodes := (nodes s)(k \<mapsto> Dir)\<rparr>"
    by (auto simp: os_mkdir_def split: option.splits sum.splits if_splits)
  from os_mkdir_kept [OF assms] k have "locate s1 p = Inr k" by (rule dirs_kept_locate)
  moreover from n have "node_at (nodes s1) k = Some Dir"
    by (auto simp: s1 node_at_def split: if_splits)
  ultimately show ?thesis by (simp add: is_dir_def)
qed

lemma os_mkdir_exists:
  assumes "is_dir p s"
  shows "\<exists>e. e \<noteq> ENOENT \<and> os_mkdir p s = (Inl e, logged (Mkdir p) s)"
proof -
  from assms obtain k where k: "locate s p = Inr k" and d: "node_at (nodes s) k = Some Dir"
    by (cases "locate s p") (simp_all add: is_dir_def)
  show ?thesis
  proof (cases "faults s (Mkdir p)")
    case None
    with k d show ?thesis by (simp add: os_mkdir_def)
  next
    case (Some f)
    then show ?thesis by (cases f) (simp_all add: os_mkdir_def)
  qed
qed

lemma path_mkdir_cases:
  assumes "path_mkdir pars ok p s = (r, s')"
  obtains
    (created) u where "os_mkdir p s = (Inr u, s')" and "r = Inr ()"
  | (present) e where "os_mkdir p s = (Inl e, s')" and "e \<noteq> ENOENT" and "ok" and "is_dir p s'"
      and "r = Inr ()"
  | (failed) e where "os_mkdir p s = (Inl e, s')" and "r = Inl e"
      and "e = ENOENT \<longrightarrow> \<not> pars \<or> parent p = p"
      and "e \<noteq> ENOENT \<longrightarrow> \<not> ok \<or> \<not> is_dir p s'"
  | (parent_failed) s1 e' where "os_mkdir p s = (Inl ENOENT, s1)" and "pars" and "parent p \<noteq> p"
      and "path_mkdir True True (parent p) s1 = (Inl e', s')" and "r = Inl e'"
  | (retry) s1 u s2 where "os_mkdir p s = (Inl ENOENT, s1)" and "pars" and "parent p \<noteq> p"
      and "path_mkdir True True (parent p) s1 = (Inr u, s2)"
      and "path_mkdir False ok p s2 = (r, s')"
proof -
  obtain x y where m: "os_mkdir p s = (x, y)" by force
  show thesis
  proof (cases x)
    case (Inr u)
    with m assms have "s' = y" and "r = Inr ()"
      by (simp_all add: path_mkdir.simps)
    with m Inr show thesis by (auto intro: created)
  next
    case (Inl e)
    show thesis
    proof (cases "e = ENOENT")
      case False
      with m Inl assms have "s' = y"
        by (simp add: path_mkdir.simps split: if_splits)
      show thesis
      proof (cases "\<not> ok \<or> \<not> is_dir p y")
        case True
        with m Inl False assms have "r = Inl e"
          by (simp add: path_mkdir.simps split: if_splits)
        with m Inl False True \<open>s' = y\<close> show thesis by (auto intro: failed)
      next
        case nt: False
        with m Inl False assms have "r = Inr ()"
          by (simp add: path_mkdir.simps split: if_splits)
        with m Inl False nt \<open>s' = y\<close> show thesis by (auto intro: present)
      qed
    next
      case True
      show thesis
      proof (cases "\<not> pars \<or> parent p = p")
        case stop: True
        with m Inl True assms have "s' = y" and "r = Inl e"
          by (auto simp: path_mkdir.simps)
        with m Inl True stop show thesis by (auto intro: failed)
      next
        case go: False
        obtain xa ya where pm: "path_mkdir True True (parent p) y = (xa, ya)" by force
        show thesis
        proof (cases xa)
          case e': (Inl e')
          with m Inl True go pm assms have "s' = ya" and "r = Inl e'"
            by (auto simp: path_mkdir.simps [of _ ok p s])
          with m Inl True go pm e' show thesis by (auto intro: parent_failed)
        next
          case u: (Inr u)
          with m Inl True go pm assms have "path_mkdir False ok p ya = (r, s')"
            by (auto simp: path_mkdir.simps [of _ ok p s])
          with m Inl True go pm u show thesis by (auto intro: retry)
        qed
      qed
    qed
  qed
qed

lemma path_mkdir_preorder:
  assumes rfl: "\<And>s. R s s" and trn: "\<And>s s1 s2. R s s1 \<Longrightarrow> R s1 s2 \<Longrightarrow> R s s2"
    and step: "\<And>p s r s1. os_mkdir p s = (r, s1) \<Longrightarrow> R s s1"
  shows "path_mkdir pars ok p s = (r, s') \<Longrightarrow> R s s'"
proof (induction pars ok p s arbitrary: r s' rule: path_mkdir.induct)
  case (1 pars ok p s)
  from "1.prems" show ?case
  proof (cases rule: path_mkdir_cases)
    case (created u)
    then show ?thesis by (auto intro: step)
  next
    case (present e)
    then show ?thesis by (auto intro: step)
  next
    case (failed e)
    then show ?thesis by (auto intro: step)
  next
    case (parent_failed s1 e')
    have "R s1 s'"
      by (rule "1.IH"(1) [OF parent_failed(1) [symmetric] refl refl _ parent_failed(4)])
         (use parent_failed in simp)
    with step [OF parent_failed(1)] show ?thesis by (rule trn)
  next
    case (retry s1 u s2)
    have "R s1 s2"
      by (rule "1.IH"(1) [OF retry(1) [symmetric] refl refl _ retry(4)])
         (use retry in simp)
    moreover have "R s2 s'"
      by (rule "1.IH"(2) [OF retry(1) [symmetric] refl refl _ retry(4) [symmetric] refl retry(5)])
         (use retry in simp)
    ultimately show ?thesis using step [OF retry(1)] by (blast intro: trn)
  qed
qed

lemma path_mkdir_kept: "path_mkdir pars ok p s = (r, s') \<Longrightarrow> dirs_kept s s'"
  by (rule path_mkdir_preorder [where R = dirs_kept])
     (auto intro: dirs_kept_refl dirs_kept_trans os_mkdir_kept)

lemma path_mkdir_Inr_is_dir:
  "path_mkdir pars ok p s = (Inr u, s') \<Longrightarrow> is_dir p s'"
proof (induction pars ok p s arbitrary: u s' rule: path_mkdir.induct)
  case (1 pars ok p s)
  from "1.prems" show ?case
  proof (cases rule: path_mkdir_cases)
    case (created u)
    then show ?thesis by (auto intro: os_mkdir_Inr_is_dir)
  next
    case (present e)
    then show ?thesis by simp
  next
    case (failed e)
    then show ?thesis by simp
  next
    case (parent_failed s1 e')
    then show ?thesis by simp
  next
    case (retry s1 u' s2)
    show ?thesis
      by (rule "1.IH"(2) [OF retry(1) [symmetric] refl refl _ retry(4) [symmetric] refl retry(5)])
         (use retry in simp)
  qed
qed

lemma path_mkdir_exists:
  assumes "is_dir p s"
  shows "path_mkdir pars True p s = (Inr (), logged (Mkdir p) s)"
proof -
  from os_mkdir_exists [OF assms] obtain e where e: "e \<noteq> ENOENT"
    and m: "os_mkdir p s = (Inl e, logged (Mkdir p) s)" by blast
  from assms have "is_dir p (logged (Mkdir p) s)"
    by (rule dirs_kept_is_dir [OF dirs_kept_logged])
  with e m show ?thesis by (simp add: path_mkdir.simps [of pars True p s])
qed


lemma write_text_cases:
  assumes "write_text p d s = (r, s')"
  obtains
    (open_failed) e where "r = Inl e" and "nodes s' = nodes s" and "cwd s' = cwd s"
      and "faults s' = faults s" and "oplog s' = oplog s @ [Open p]"
  | (write_failed) k e where "locate s p = Inr k" and "node_at (nodes s) k \<noteq> Some Dir"
      and "r = Inl e" and "nodes s' = (nodes s)(k \<mapsto> File [])" and "cwd s' = cwd s"
      and "faults s' = faults s" and "oplog s' = oplog s @ [Open p, Write k d]"
  | (written) k where "locate s p = Inr k" and "node_at (nodes s) k \<noteq> Some Dir"
      and "r = Inr ()" and "nodes s' = (nodes s)(k \<mapsto> File d)" and "cwd s' = cwd s"
      and "faults s' = faults s" and "oplog s' = oplog s @ [Open p, Write k d]"
proof -
  obtain x s1 where o: "os_open_w p s = (x, s1)" by force
  show thesis
  proof (cases x)
    case (Inl e)
    with o assms have "s' = s1" and "r = Inl e" by (simp_all add: write_text_def)
    moreover from o Inl have "s1 = logged (Open p) s"
      by (auto simp: os_open_w_def split: option.splits sum.splits if_splits)
    ultimately show thesis by (auto intro: open_failed)
  next
    case (Inr k)
    with o have k: "locate s p = Inr k" and nd: "node_at (nodes s) k \<noteq> Some Dir"
      and s1: "s1 = (logged (Open p) s)\<lparr>nodes := (nodes s)(k \<mapsto> File [])\<rparr>"
      by (auto simp: os_open_w_def split: option.splits sum.splits if_splits)
    from o Inr assms have w: "os_write k d s1 = (r, s')" by (simp add: write_text_def)
    show thesis
    proof (cases "faults s1 (Write k d)")
      case (Some f)
      with w have "r = Inl (errno_of f)" and "s' = logged (Write k d) s1"
        by (simp_all add: os_write_def)
      with k nd s1 show thesis by (auto intro: write_failed)
    next
      case None
      with w have "r = Inr ()"
        and "s' = (logged (Write k d) s1)\<lparr>nodes := (nodes s1)(k \<mapsto> File d)\<rparr>"
        by (simp_all add: os_write_def)
      with k nd s1 show thesis by (auto intro: written)
    qed
  qed
qed

lemma write_text_kept:
  assumes "write_text p d s = (r, s')"
  shows "dirs_kept s s'"
  using assms
proof (cases rule: write_text_cases)
  case (open_failed e)
  then show ?thesis by (simp add: dirs_kept_def)
next
  case (write_failed k e)
  then show ?thesis by (auto simp: dirs_kept_def node_at_def)
next
  case (written k)
  then show ?thesis by (auto simp: dirs_kept_def node_at_def)
qed

lemma write_text_read:
  assumes "write_text p d s = (Inr u, s')"
  shows "read_text p s' = Inr d"
proof -
  from assms obtain k where k: "locate s p = Inr k" and nd: "node_at (nodes s) k \<noteq> Some Dir"
    and n: "nodes s' = (nodes s)(k \<mapsto> File d)"
    by (cases rule: write_text_cases) auto
  from write_text_kept [OF assms] k have "locate s' p = Inr k" by (rule dirs_kept_locate)
  moreover from nd have "node_at (nodes s') k = Some (File d)"
    by (simp add: n node_at_upd_same)
  ultimately show ?thesis by (simp add: read_text_def)
qed

lemma save_plan_to_file_cases:
  assumes "save_plan_to_file this_file steps filename s = (r, s')"
  obtains
    (no_root) "parents (parse_path this_file) 2 = Inl IndexError" and "r = Inl IndexError"
      and "s' = s"
  | (mkdir_failed) root e where "parents (parse_path this_file) 2 = Inr root"
      and "path_mkdir True True (truediv root ''logs'') s = (Inl e, s')"
      and "r = Inl (OSError e)"
  | (write_failed) root s1 e where "parents (parse_path this_file) 2 = Inr root"
      and "path_mkdir True True (truediv root ''logs'') s = (Inr (), s1)"
      and "write_text (truediv (truediv root ''logs'') filename) (plan_text steps) s1 = (Inl e, s')"
      and "r = Inl (OSError e)"
  | (saved) root s1 where "parents (parse_path this_file) 2 = Inr root"
      and "path_mkdir True True (truediv root ''logs'') s = (Inr (), s1)"
      and "write_text (truediv (truediv root ''logs'') filename) (plan_text steps) s1 = (Inr (), s')"
      and "r = Inr (str_path (truediv (truediv root ''logs'') filename))"
proof (cases "parents (parse_path this_file) 2")
  case (Inl e)
  then have "e = IndexError" by (simp add: parents_def split: if_splits)
  with Inl assms show thesis by (auto simp: save_plan_to_file_def intro: no_root)
next
  case (Inr root)
  obtain x s1 where m: "path_mkdir True True (truediv root ''logs'') s = (x, s1)" by force
  show thesis
  proof (cases x)
    case (Inl e)
    with Inr m assms show thesis by (auto simp: save_plan_to_file_def intro: mkdir_failed)
  next
    case u: (Inr u)
    obtain y s2 where w: "write_text (truediv (truediv root ''logs'') filename) (plan_text steps) s1 = (y, s2)"
      by force
    show thesis
    proof (cases y)
      case (Inl e)
      with Inr m u w assms show thesis
        by (auto simp: save_plan_to_file_def plan_text_def intro: write_failed)
    next
      case v: (Inr v)
      with Inr m u w assms show thesis
        by (auto simp: save_plan_to_file_def plan_text_def intro: saved)
    qed
  qed
qed


subsection \<open>Evaluating the example states\<close>

lemma example_root: "parents (parse_path example_file) 2 = Inr (PPath ''/'' [''repo''])"
  by (simp add: example_file_def parents_def parse_path_def split_sep_def)

lemma example_logs: "truediv (PPath ''/'' [''repo'']) ''logs'' = PPath ''/'' [''repo'', ''logs'']"
  by (simp add: truediv_def parse_path_def split_sep_def)

lemma example_target:
  "truediv (PPath ''/'' [''repo'', ''logs'']) default_filename = PPath ''/'' [''repo'', ''logs'', ''autogen_plan.txt'']"
  by (simp add: truediv_def parse_path_def split_sep_def default_filename_def)

lemma example_mkdir:
  "path_mkdir True True (PPath ''/'' [''repo'', ''logs'']) example_fs =
     (Inr (), (logged (Mkdir (PPath ''/'' [''repo'', ''logs''])) example_fs)
        \<lparr>nodes := (nodes example_fs)([''repo'', ''logs''] \<mapsto> Dir)\<rparr>)"
  by (simp add: path_mkdir.simps os_mkdir_def locate_def node_at_def example_fs_def)

lemma save_plan_to_file_saved:
  assumes "parents (parse_path this_file) 2 = Inr root"
    and "path_mkdir True True (truediv root ''logs'') s = (Inr (), s1)"
    and "write_text (truediv (truediv root ''logs'') filename) (plan_text steps) s1 = (Inr (), s2)"
  shows "save_plan_to_file this_file steps filename s =
    (Inr (str_path (truediv (truediv root ''logs'') filename)), s2)"
  using assms by (simp add: save_plan_to_file_def Let_def plan_text_def)

lemma write_text_written:
  assumes "faults s (Open p) = None" and "locate s p = Inr k"
    and "node_at (nodes s) k \<noteq> Some Dir" and "faults s (Write k d) = None"
  shows "write_text p d s =
    (Inr (), s\<lparr>oplog := oplog s @ [Open p, Write k d], nodes := (nodes s)(k \<mapsto> File d)\<rparr>)"
  using assms by (simp add: write_text_def os_open_w_def os_write_def logged_def)

lemma example_write:
  assumes "s1 = (logged (Mkdir (PPath ''/'' [''repo'', ''logs''])) example_fs)
        \<lparr>nodes := (nodes example_fs)([''repo'', ''logs''] \<mapsto> Dir)\<rparr>"
  shows "write_text (PPath ''/'' [''repo'', ''logs'', ''autogen_plan.txt'']) d s1 =
     (Inr (), s1\<lparr>oplog := oplog s1 @ [Open (PPath ''/'' [''repo'', ''logs'', ''autogen_plan.txt'']),
                     Write [''repo'', ''logs'', ''autogen_plan.txt''] d],
        nodes := (nodes s1)([''repo'', ''logs'', ''autogen_plan.txt''] \<mapsto> File d)\<rparr>)"
  by (rule write_text_written)
     (simp_all add: assms logged_def locate_def node_at_def example_fs_def)

lemma example_save:
  "fst (save_plan_to_file example_file steps default_filename example_fs) =
     Inr ''/repo/logs/autogen_plan.txt''"
  using save_plan_to_file_saved [OF example_root, of example_fs _ default_filename steps]
  by (simp add: example_logs example_target example_mkdir example_write str_path_def)

lemma example_save_read:
  "read_text (PPath ''/'' [''repo'', ''logs'', ''autogen_plan.txt''])
     (snd (save_plan_to_file example_file steps default_filename example_fs)) = Inr (plan_text steps)"
  using save_plan_to_file_saved [OF example_root, of example_fs _ default_filename steps]
  by (simp add: example_logs example_target example_mkdir example_write)
     (simp add: read_text_def locate_def node_at_def example_fs_def logged_def)


subsection \<open>The coordinator\<close>

lemma created_groupchat:
  "manager_groupchat (snd (create_planner_executor_agents env)) =
     \<lparr>agents = [UserProxyAgent ''user'' False ''NEVER'',
                 AssistantAgent ''planner'' (get_llm_config env)
                   (''You are an MLOps planning assistant. Given a high-level goal, '' @
                    ''produce a numbered list of 4-8 concrete steps to achieve it. '' @
                    ''Focus on practical, implementation-oriented actions.''),
                 AssistantAgent ''executor'' (get_llm_config env)
                   (''You are an MLOps execution assistant. For each step in the '' @
                    ''plan, describe briefly how to carry it out in practice, then '' @
                    ''call `save_plan_tool` once you have the final plan ready.'')],
       messages = [], max_round = 10\<rparr>"
  by (simp add: create_planner_executor_agents_def Let_def)

lemma created_max_round:
  "max_round (manager_groupchat (snd (create_planner_executor_agents env))) = 10"
  by (simp add: created_groupchat)

lemma created_user: "fst (create_planner_executor_agents env) = UserProxyAgent ''user'' False ''NEVER''"
  by (simp add: create_planner_executor_agents_def Let_def)

lemma turn_round:
  "round_counter s \<le> max_round gc \<Longrightarrow> round_counter (turn b u gc goal s) \<le> max_round gc"
  by (simp add: turn_def Let_def)

lemma turn_length:
  "length (transcript s) = round_counter s \<Longrightarrow>
   length (transcript (turn b u gc goal s)) = round_counter (turn b u gc goal s)"
  by (simp add: turn_def Let_def)

lemma run_turns_round: "round_counter (run_turns b u gc goal n) \<le> max_round gc"
  by (induction n) (simp_all add: initial_session_def turn_round)

lemma run_turns_length:
  "length (transcript (run_turns b u gc goal n)) = round_counter (run_turns b u gc goal n)"
  by (induction n) (simp_all add: initial_session_def turn_length)

lemma run_turns_live:
  "\<not> terminated (run_turns b u gc goal n) \<Longrightarrow> round_counter (run_turns b u gc goal n) = n"
proof (induction n)
  case 0
  then show ?case by (simp add: initial_session_def)
next
  case (Suc n)
  let ?s = "run_turns b u gc goal n"
  from Suc.prems have live: "\<not> terminated ?s"
    by (auto simp: turn_def)
  with Suc.prems have "\<not> (max_round gc \<le> round_counter ?s \<or> agents gc = [])"
    by (auto simp: turn_def)
  with live Suc.IH show ?case by (simp add: turn_def Let_def)
qed

lemma run_turns_terminated: "terminated (run_turns b u gc goal (Suc (max_round gc)))"
proof (rule ccontr)
  assume "\<not> terminated (run_turns b u gc goal (Suc (max_round gc)))"
  then have "round_counter (run_turns b u gc goal (Suc (max_round gc))) = Suc (max_round gc)"
    by (rule run_turns_live)
  with run_turns_round [of b u gc goal "Suc (max_round gc)"] show False by simp
qed

lemma initiate_chat_terminated: "terminated (initiate_chat b am goal)"
  by (cases am) (simp add: initiate_chat_def run_turns_terminated del: run_turns.simps)









subsection \<open>Further evaluation of the example states\<close>

lemma save_plan_to_file_Inr:
  assumes "save_plan_to_file this_file steps filename s = (Inr p, s')"
  obtains root where "parents (parse_path this_file) 2 = Inr root"
    and "p = str_path (truediv (truediv root ''logs'') filename)"
    and "parse_path p = truediv (truediv root ''logs'') filename"
    and "read_text (parse_path p) s' = Inr (plan_text steps)"
  using assms
proof (cases rule: save_plan_to_file_cases)
  case (saved root s1)
  have "normal_path root"
    by (rule normal_parents [OF normal_parse_path saved(1)])
  then have "normal_path (truediv (truediv root ''logs'') filename)"
    by (intro normal_truediv)
  then have rt: "parse_path p = truediv (truediv root ''logs'') filename"
    using saved(4) by (simp add: parse_str_path)
  moreover have "read_text (truediv (truediv root ''logs'') filename) s' = Inr (plan_text steps)"
    by (rule write_text_read [OF saved(3)])
  ultimately show ?thesis using saved(1,4) by (auto intro: that)
qed simp_all

lemma plan_text_nth:
  "plan_text steps =
     concat (map (\<lambda>i. str_nat (i + 1) @ ''. '' @ steps ! i @ ''\<newline>'') [0..<length steps])"
proof -
  have "plan_lines steps = map (\<lambda>i. str_nat (i + 1) @ ''. '' @ steps ! i @ ''\<newline>'') [0..<length steps]"
    by (rule nth_equalityI) (simp_all add: plan_lines_def nth_enumerate_eq)
  then show ?thesis by (simp add: plan_text_def)
qed

lemma plan_text_example:
  "plan_text [''Collect data'', ''Train model''] = ''1. Collect data\<newline>2. Train model\<newline>''"
  by (simp add: plan_text_def plan_lines_def str_nat.simps digit_char_def)

lemma example_saved:
  "save_plan_to_file example_file steps default_filename example_fs =
    (Inr ''/repo/logs/autogen_plan.txt'',
     snd (save_plan_to_file example_file steps default_filename example_fs))"
  using example_save [of steps] by (simp add: prod_eq_iff)

lemma save_plan_to_file_existing:
  assumes "parents (parse_path this_file) 2 = Inr root"
    and "is_dir (truediv root ''logs'') s"
    and "faults s (Open (truediv (truediv root ''logs'') filename)) = None"
    and "locate s (truediv (truediv root ''logs'') filename) = Inr k"
    and "node_at (nodes s) k \<noteq> Some Dir"
    and "faults s (Write k (plan_text steps)) = None"
  shows "save_plan_to_file this_file steps filename s =
    (Inr (str_path (truediv (truediv root ''logs'') filename)),
     s\<lparr>oplog := oplog s @ [Mkdir (truediv root ''logs''),
          Open (truediv (truediv root ''logs'') filename), Write k (plan_text steps)],
       nodes := (nodes s)(k \<mapsto> File (plan_text steps))\<rparr>)"
proof -
  let ?s1 = "logged (Mkdir (truediv root ''logs'')) s"
  have m: "path_mkdir True True (truediv root ''logs'') s = (Inr (), ?s1)"
    by (rule path_mkdir_exists [OF assms(2)])
  have l: "locate ?s1 (truediv (truediv root ''logs'') filename) = Inr k"
    using assms(4) by (simp add: locate_eqI [of ?s1 s])
  have "write_text (truediv (truediv root ''logs'') filename) (plan_text steps) ?s1 =
    (Inr (), ?s1\<lparr>oplog := oplog ?s1 @ [Open (truediv (truediv root ''logs'') filename),
        Write k (plan_text steps)], nodes := (nodes ?s1)(k \<mapsto> File (plan_text steps))\<rparr>)"
    by (rule write_text_written) (simp_all add: assms l)
  from save_plan_to_file_saved [OF assms(1) m this] show ?thesis
    by (simp add: logged_def)
qed

lemma used_is_dir: "is_dir (PPath ''/'' [''repo'', ''logs'']) used_fs"
  by (simp add: is_dir_def locate_def node_at_def used_fs_def example_fs_def)

lemma used_save:
  "save_plan_to_file example_file steps default_filename used_fs =
     (Inr ''/repo/logs/autogen_plan.txt'',
      snd (save_plan_to_file example_file steps default_filename used_fs))"
proof -
  have "fst (save_plan_to_file example_file steps default_filename used_fs) =
      Inr ''/repo/logs/autogen_plan.txt''"
    by (subst save_plan_to_file_existing [OF example_root, where k = "[''repo'', ''logs'', ''autogen_plan.txt'']"])
       (simp_all add: example_logs example_target used_is_dir str_path_def,
        simp_all add: locate_def node_at_def used_fs_def example_fs_def)
  then show ?thesis by (simp add: prod_eq_iff)
qed

lemma example_save_state:
  "snd (save_plan_to_file example_file steps default_filename example_fs) =
     example_fs\<lparr>oplog := [Mkdir (PPath ''/'' [''repo'', ''logs'']),
                           Open (PPath ''/'' [''repo'', ''logs'', ''autogen_plan.txt'']),
                           Write [''repo'', ''logs'', ''autogen_plan.txt''] (plan_text steps)],
                 nodes := (nodes example_fs)([''repo'', ''logs''] \<mapsto> Dir,
                   [''repo'', ''logs'', ''autogen_plan.txt''] \<mapsto> File (plan_text steps))\<rparr>"
  using save_plan_to_file_saved [OF example_root, of example_fs _ default_filename steps]
  by (simp add: example_logs example_target example_mkdir example_write)
     (simp add: logged_def example_fs_def)

lemma example_save_twice:
  "save_plan_to_file example_file steps2 default_filename
     (snd (save_plan_to_file example_file steps1 default_filename example_fs)) =
   (Inr ''/repo/logs/autogen_plan.txt'',
    snd (save_plan_to_file example_file steps2 default_filename
      (snd (save_plan_to_file example_file steps1 default_filename example_fs))))"
proof -
  let ?s1 = "snd (save_plan_to_file example_file steps1 default_filename example_fs)"
  have "fst (save_plan_to_file example_file steps2 default_filename ?s1) =
      Inr ''/repo/logs/autogen_plan.txt''"
    by (subst save_plan_to_file_existing [OF example_root, where k = "[''repo'', ''logs'', ''autogen_plan.txt'']"])
       (simp_all add: example_logs example_target str_path_def example_save_state,
        simp_all add: is_dir_def locate_def node_at_def example_fs_def)
  then show ?thesis by (simp add: prod_eq_iff)
qed

lemma plan_text_three:
  "plan_text [''Load data'', ''Fit'', ''Report''] = ''1. Load data\<newline>2. Fit\<newline>3. Report\<newline>''"
  by (simp add: plan_text_def plan_lines_def str_nat.simps digit_char_def)

lemma plan_text_broken: "plan_text [''a\<newline>b''] = ''1. a\<newline>b\<newline>''"
  by (simp add: plan_text_def plan_lines_def str_nat.simps digit_char_def)

lemma example_tmp_target:
  "truediv (PPath ''/'' [''repo'', ''logs'']) ''/tmp/plan.txt'' = PPath ''/'' [''tmp'', ''plan.txt'']"
  "truediv (PPath ''/'' [''repo'', ''logs'']) ''/tmp//plan.txt'' = PPath ''/'' [''tmp'', ''plan.txt'']"
  by (simp_all add: truediv_def parse_path_def split_sep_def)

lemma example_tmp_write:
  assumes "s1 = (logged (Mkdir (PPath ''/'' [''repo'', ''logs''])) example_fs)
        \<lparr>nodes := (nodes example_fs)([''repo'', ''logs''] \<mapsto> Dir)\<rparr>"
  shows "write_text (PPath ''/'' [''tmp'', ''plan.txt'']) d s1 =
     (Inr (), s1\<lparr>oplog := oplog s1 @ [Open (PPath ''/'' [''tmp'', ''plan.txt'']),
                     Write [''tmp'', ''plan.txt''] d],
        nodes := (nodes s1)([''tmp'', ''plan.txt''] \<mapsto> File d)\<rparr>)"
  by (rule write_text_written)
     (simp_all add: assms logged_def locate_def node_at_def example_fs_def)

lemma example_tmp_saved:
  "save_plan_to_file example_file steps ''/tmp/plan.txt'' example_fs =
    (Inr ''/tmp/plan.txt'', snd (save_plan_to_file example_file steps ''/tmp/plan.txt'' example_fs))"
  "save_plan_to_file example_file steps ''/tmp//plan.txt'' example_fs =
    (Inr ''/tmp/plan.txt'', snd (save_plan_to_file example_file steps ''/tmp//plan.txt'' example_fs))"
proof -
  have "fst (save_plan_to_file example_file steps ''/tmp/plan.txt'' example_fs) = Inr ''/tmp/plan.txt''"
    using save_plan_to_file_saved [OF example_root, of example_fs _ "''/tmp/plan.txt''" steps]
    by (simp add: example_logs example_tmp_target example_mkdir example_tmp_write str_path_def)
  then show "save_plan_to_file example_file steps ''/tmp/plan.txt'' example_fs =
    (Inr ''/tmp/plan.txt'', snd (save_plan_to_file example_file steps ''/tmp/plan.txt'' example_fs))"
    by (simp add: prod_eq_iff)
  have "fst (save_plan_to_file example_file steps ''/tmp//plan.txt'' example_fs) = Inr ''/tmp/plan.txt''"
    using save_plan_to_file_saved [OF example_root, of example_fs _ "''/tmp//plan.txt''" steps]
    by (simp add: example_logs example_tmp_target example_mkdir example_tmp_write str_path_def)
  then show "save_plan_to_file example_file steps ''/tmp//plan.txt'' example_fs =
    (Inr ''/tmp/plan.txt'', snd (save_plan_to_file example_file steps ''/tmp//plan.txt'' example_fs))"
    by (simp add: prod_eq_iff)
qed

lemma os_mkdir_attempts:
  assumes "os_mkdir p s = (r, s1)"
  shows "open_attempts s1 = open_attempts s \<and> write_attempts s1 = write_attempts s"
  using os_mkdir_oplog [OF assms] by (simp add: open_attempts_def write_attempts_def)

lemma path_mkdir_attempts:
  assumes "path_mkdir pars ok p s = (r, s')"
  shows "open_attempts s' = open_attempts s \<and> write_attempts s' = write_attempts s"
  using assms
  by (rule path_mkdir_preorder [where R = "\<lambda>s s'. open_attempts s' = open_attempts s \<and>
        write_attempts s' = write_attempts s", rotated -1])
     (simp_all add: os_mkdir_attempts)

lemma write_text_attempts:
  assumes "write_text p d s = (r, s')"
  shows "open_attempts s' = open_attempts s + 1 \<and> write_attempts s' \<le> write_attempts s + 1"
  using assms
  by (cases rule: write_text_cases) (simp_all add: open_attempts_def write_attempts_def)

lemma save_plan_to_file_attempts:
  assumes "save_plan_to_file this_file steps filename s = (r, s')"
  shows "open_attempts s' \<le> open_attempts s + 1 \<and> write_attempts s' \<le> write_attempts s + 1"
  using assms
proof (cases rule: save_plan_to_file_cases)
  case no_root
  then show ?thesis by simp
next
  case (mkdir_failed root e)
  with path_mkdir_attempts [OF mkdir_failed(2)] show ?thesis by simp
next
  case (write_failed root s1 e)
  with path_mkdir_attempts [OF write_failed(2)] write_text_attempts [OF write_failed(3)]
  show ?thesis by simp
next
  case (saved root s1)
  with path_mkdir_attempts [OF saved(2)] write_text_attempts [OF saved(3)]
  show ?thesis by simp
qed

lemma readonly_mkdir:
  "path_mkdir True True (PPath ''/'' [''repo'', ''logs'']) readonly_fs =
     (Inl EROFS, logged (Mkdir (PPath ''/'' [''repo'', ''logs''])) readonly_fs)"
  by (simp add: path_mkdir.simps os_mkdir_def)
     (simp add: is_dir_def locate_def node_at_def logged_def readonly_fs_def example_fs_def)

lemma full_is_dir: "is_dir (PPath ''/'' [''repo'', ''logs'']) full_fs"
  by (simp add: is_dir_def locate_def node_at_def full_fs_def used_fs_def example_fs_def)

lemma full_write:
  "write_text (PPath ''/'' [''repo'', ''logs'', ''autogen_plan.txt'']) d
     (logged (Mkdir (PPath ''/'' [''repo'', ''logs''])) full_fs) =
   (Inl ENOSPC,
    full_fs\<lparr>oplog := [Mkdir (PPath ''/'' [''repo'', ''logs'']),
                       Open (PPath ''/'' [''repo'', ''logs'', ''autogen_plan.txt'']),
                       Write [''repo'', ''logs'', ''autogen_plan.txt''] d],
            nodes := (nodes full_fs)([''repo'', ''logs'', ''autogen_plan.txt''] \<mapsto> File [])\<rparr>)"
  by (simp add: write_text_def os_open_w_def os_write_def locate_def node_at_def logged_def
        full_fs_def used_fs_def example_fs_def)

lemma save_plan_to_file_is_dir:
  assumes "parents (parse_path this_file) 2 = Inr root"
    and "path_mkdir True True (truediv root ''logs'') s = (Inr (), s0)"
    and "save_plan_to_file this_file steps filename s = (r, s1)"
  shows "is_dir (truediv root ''logs'') s1"
proof -
  have d0: "is_dir (truediv root ''logs'') s0"
    by (rule path_mkdir_Inr_is_dir [OF assms(2)])
  from assms(3) show ?thesis
  proof (cases rule: save_plan_to_file_cases)
    case no_root
    with assms(1) show ?thesis by simp
  next
    case (mkdir_failed root' e)
    with assms(1,2) show ?thesis by simp
  next
    case (write_failed root' s1' e)
    with assms(1,2) have "write_text (truediv (truediv root ''logs'') filename) (plan_text steps) s0 = (Inl e, s1)"
      by simp
    from write_text_kept [OF this] d0 show ?thesis by (rule dirs_kept_is_dir)
  next
    case (saved root' s1')
    with assms(1,2) have "write_text (truediv (truediv root ''logs'') filename) (plan_text steps) s0 = (Inr (), s1)"
      by simp
    from write_text_kept [OF this] d0 show ?thesis by (rule dirs_kept_is_dir)
  qed
qed

lemma save_plan_to_file_dir_exists:
  assumes "parents (parse_path this_file) 2 = Inr root"
    and "is_dir (truediv root ''logs'') s"
  shows "save_plan_to_file this_file steps filename s =
    (case write_text (truediv (truediv root ''logs'') filename) (plan_text steps)
            (logged (Mkdir (truediv root ''logs'')) s) of
       (Inl e, s2) \<Rightarrow> (Inl (OSError e), s2)
     | (Inr u, s2) \<Rightarrow> (Inr (str_path (truediv (truediv root ''logs'') filename)), s2))"
  using assms(1) path_mkdir_exists [OF assms(2), of True]
  by (simp add: save_plan_to_file_def Let_def plan_text_def)

subsection \<open>The speaker of each turn\<close>









section \<open>The claims\<close>

text \<open>
  Claim C1, as amended. When \<^verbatim>\<open>save_plan_to_file\<close> returns, the file at the returned
  path holds the concatenation of one piece per step, the \<open>i\<close>-th piece being the number
  \<open>i\<close> (counted from one), a dot, a space, the step and a newline. When no step contains
  a newline character, the file has exactly as many lines as there are steps, and line
  \<open>i\<close> is the number, the dot, the space and the step.
\<close>

theorem save_plan_numbered_lines:
  assumes "save_plan_to_file this_file steps filename s = (Inr p, s')"
  shows "read_text (parse_path p) s' = Inr (plan_text steps) \<and>
    plan_text steps =
      concat (map (\<lambda>i. str_nat (i + 1) @ ''. '' @ steps ! i @ ''\<newline>'') [0..<length steps]) \<and>
    (list_all (\<lambda>st. CHR ''\<newline>'' \<notin> set st) steps \<longrightarrow>
       length (file_lines (plan_text steps)) = length steps \<and>
       (i < length steps \<longrightarrow>
          file_lines (plan_text steps) ! i = str_nat (i + 1) @ ''. '' @ steps ! i))"
proof -
  from assms have "read_text (parse_path p) s' = Inr (plan_text steps)"
    by (rule save_plan_to_file_Inr)
  moreover have "list_all (\<lambda>st. CHR ''\<newline>'' \<notin> set st) steps \<Longrightarrow>
      file_lines (plan_text steps) = numbered 0 steps"
    by (rule file_lines_plan_text) (simp add: list_all_iff)
  ultimately show ?thesis
    using plan_text_nth [of steps] by (simp add: length_numbered nth_numbered)
qed

text \<open>
  An instance: three steps without newlines saved in the fresh checkout; the file has
  three lines and the second one is \<^verbatim>\<open>"2. Fit"\<close>.
\<close>

theorem save_plan_numbered_lines_witness:
  "save_plan_to_file example_file [''Load data'', ''Fit'', ''Report''] default_filename example_fs =
     (Inr ''/repo/logs/autogen_plan.txt'',
      snd (save_plan_to_file example_file [''Load data'', ''Fit'', ''Report''] default_filename example_fs)) \<and>
   list_all (\<lambda>st. CHR ''\<newline>'' \<notin> set st) [''Load data'', ''Fit'', ''Report''] \<and>
   (1::nat) < length [''Load data'', ''Fit'', ''Report''] \<and>
   read_text (parse_path ''/repo/logs/autogen_plan.txt'')
     (snd (save_plan_to_file example_file [''Load data'', ''Fit'', ''Report''] default_filename example_fs)) =
     Inr ''1. Load data\<newline>2. Fit\<newline>3. Report\<newline>'' \<and>
   length (file_lines ''1. Load data\<newline>2. Fit\<newline>3. Report\<newline>'') = 3 \<and>
   file_lines ''1. Load data\<newline>2. Fit\<newline>3. Report\<newline>'' ! 1 = ''2. Fit''"
proof -
  let ?steps = "[''Load data'', ''Fit'', ''Report'']"
  note h = example_saved [of ?steps]
  have ok: "list_all (\<lambda>st. CHR ''\<newline>'' \<notin> set st) ?steps" by simp
  have i: "(1::nat) < length ?steps" by simp
  from save_plan_numbered_lines [OF h, of 1] ok i
  have "read_text (parse_path ''/repo/logs/autogen_plan.txt'')
      (snd (save_plan_to_file example_file ?steps default_filename example_fs)) =
      Inr (plan_text ?steps)"
    and "length (file_lines (plan_text ?steps)) = length ?steps"
    and "file_lines (plan_text ?steps) ! 1 = str_nat (1 + 1) @ ''. '' @ ?steps ! 1"
    by blast+
  then have "read_text (parse_path ''/repo/logs/autogen_plan.txt'')
      (snd (save_plan_to_file example_file ?steps default_filename example_fs)) =
      Inr ''1. Load data\<newline>2. Fit\<newline>3. Report\<newline>''"
    and "length (file_lines ''1. Load data\<newline>2. Fit\<newline>3. Report\<newline>'') = 3"
    and "file_lines ''1. Load data\<newline>2. Fit\<newline>3. Report\<newline>'' ! 1 = ''2. Fit''"
    by (simp_all add: plan_text_three str_nat.simps digit_char_def)
  with h ok i show ?thesis by (intro conjI)
qed

text \<open>
  Claim C1 as the spec states it, for every sequence of strings, fails for a step that
  contains a newline character: the one step \<^verbatim>\<open>"a\nb"\<close> gives a file of two lines,
  and the second line does not begin with a number.
\<close>

theorem save_plan_line_count_counterexample:
  "save_plan_to_file example_file [''a\<newline>b''] default_filename example_fs =
     (Inr ''/repo/logs/autogen_plan.txt'',
      snd (save_plan_to_file example_file [''a\<newline>b''] default_filename example_fs)) \<and>
   read_text (parse_path ''/repo/logs/autogen_plan.txt'')
     (snd (save_plan_to_file example_file [''a\<newline>b''] default_filename example_fs)) =
     Inr ''1. a\<newline>b\<newline>'' \<and>
   length [''a\<newline>b''] = 1 \<and>
   file_lines ''1. a\<newline>b\<newline>'' = [''1. a'', ''b''] \<and>
   length (file_lines ''1. a\<newline>b\<newline>'') \<noteq> length [''a\<newline>b'']"
proof -
  note h = example_saved [of "[''a\<newline>b'']"]
  from h have "read_text (parse_path ''/repo/logs/autogen_plan.txt'')
     (snd (save_plan_to_file example_file [''a\<newline>b''] default_filename example_fs)) =
     Inr (plan_text [''a\<newline>b''])"
    by (rule save_plan_to_file_Inr)
  with h show ?thesis by (simp add: plan_text_broken file_lines_def)
qed

text \<open>
  Claim C2. For the steps \<^verbatim>\<open>["Collect data", "Train model"]\<close> the whole content of the
  file that \<^verbatim>\<open>save_plan_to_file\<close> has written is
  \<^verbatim>\<open>"1. Collect data\n2. Train model\n"\<close>.
\<close>

theorem save_plan_example_content:
  assumes "save_plan_to_file this_file [''Collect data'', ''Train model''] filename s = (Inr p, s')"
  shows "read_text (parse_path p) s' = Inr ''1. Collect data\<newline>2. Train model\<newline>''"
proof -
  from assms have "read_text (parse_path p) s' = Inr (plan_text [''Collect data'', ''Train model''])"
    by (rule save_plan_to_file_Inr)
  then show ?thesis by (simp only: plan_text_example)
qed

text \<open>
  The fresh checkout is an instance: the call returns, and the file reads as stated.
\<close>

theorem save_plan_example_content_witness:
  "save_plan_to_file example_file [''Collect data'', ''Train model''] default_filename example_fs =
     (Inr ''/repo/logs/autogen_plan.txt'',
      snd (save_plan_to_file example_file [''Collect data'', ''Train model''] default_filename example_fs)) \<and>
   read_text (parse_path ''/repo/logs/autogen_plan.txt'')
     (snd (save_plan_to_file example_file [''Collect data'', ''Train model''] default_filename example_fs)) =
     Inr ''1. Collect data\<newline>2. Train model\<newline>''"
  using example_saved save_plan_example_content [OF example_saved] by (rule conjI)

text \<open>
  Claim C3. After a call with the steps \<open>steps1\<close>, whatever its outcome, a call with the
  steps \<open>steps2\<close> and the same file name that returns leaves in the file exactly the text
  of \<open>steps2\<close>: nothing of the first write is left and nothing is appended. This is also
  what the second call alone leaves, from the state before the first call, when it
  returns there.
\<close>

theorem save_plan_overwrites:
  assumes "save_plan_to_file this_file steps1 filename s = (r1, s1)"
    and "save_plan_to_file this_file steps2 filename s1 = (Inr p, s2)"
  shows "read_text (parse_path p) s2 = Inr (plan_text steps2) \<and>
    (save_plan_to_file this_file steps2 filename s = (Inr q, t) \<longrightarrow>
       q = p \<and> read_text (parse_path q) t = read_text (parse_path p) s2)"
proof -
  from assms(2) obtain root where root: "parents (parse_path this_file) 2 = Inr root"
    and p: "p = str_path (truediv (truediv root ''logs'') filename)"
    and r: "read_text (parse_path p) s2 = Inr (plan_text steps2)"
    by (rule save_plan_to_file_Inr)
  have "q = p \<and> read_text (parse_path q) t = read_text (parse_path p) s2"
    if alone: "save_plan_to_file this_file steps2 filename s = (Inr q, t)"
  proof -
    from alone obtain root' where "parents (parse_path this_file) 2 = Inr root'"
      and "q = str_path (truediv (truediv root' ''logs'') filename)"
      and "read_text (parse_path q) t = Inr (plan_text steps2)"
      by (rule save_plan_to_file_Inr)
    with root p r show ?thesis by simp
  qed
  with r show ?thesis by blast
qed

text \<open>
  An instance: two steps are saved in the fresh checkout, then one step under the same
  name; the file holds the one step only, as after saving the one step alone.
\<close>

theorem save_plan_overwrites_witness:
  "save_plan_to_file example_file [''Collect data'', ''Train model''] default_filename example_fs =
     (Inr ''/repo/logs/autogen_plan.txt'',
      snd (save_plan_to_file example_file [''Collect data'', ''Train model''] default_filename example_fs)) \<and>
   save_plan_to_file example_file [''Deploy''] default_filename
       (snd (save_plan_to_file example_file [''Collect data'', ''Train model''] default_filename example_fs)) =
     (Inr ''/repo/logs/autogen_plan.txt'',
      snd (save_plan_to_file example_file [''Deploy''] default_filename
        (snd (save_plan_to_file example_file [''Collect data'', ''Train model''] default_filename example_fs)))) \<and>
   save_plan_to_file example_file [''Deploy''] default_filename example_fs =
     (Inr ''/repo/logs/autogen_plan.txt'',
      snd (save_plan_to_file example_file [''Deploy''] default_filename example_fs)) \<and>
   read_text (parse_path ''/repo/logs/autogen_plan.txt'')
     (snd (save_plan_to_file example_file [''Deploy''] default_filename
        (snd (save_plan_to_file example_file [''Collect data'', ''Train model''] default_filename example_fs)))) =
     Inr ''1. Deploy\<newline>'' \<and>
   read_text (parse_path ''/repo/logs/autogen_plan.txt'')
     (snd (save_plan_to_file example_file [''Deploy''] default_filename example_fs)) =
     Inr ''1. Deploy\<newline>''"
proof -
  have pt: "plan_text [''Deploy''] = ''1. Deploy\<newline>''"
    by (simp add: plan_text_def plan_lines_def str_nat.simps digit_char_def)
  note first = example_saved [of "[''Collect data'', ''Train model'']"]
  note second = example_save_twice [of "[''Deploy'']" "[''Collect data'', ''Train model'']"]
  note alone = example_saved [of "[''Deploy'']"]
  from save_plan_overwrites [OF first second] alone
  have "read_text (parse_path ''/repo/logs/autogen_plan.txt'')
     (snd (save_plan_to_file example_file [''Deploy''] default_filename
        (snd (save_plan_to_file example_file [''Collect data'', ''Train model''] default_filename example_fs)))) =
     Inr (plan_text [''Deploy''])"
    and "read_text (parse_path ''/repo/logs/autogen_plan.txt'')
     (snd (save_plan_to_file example_file [''Deploy''] default_filename example_fs)) =
     read_text (parse_path ''/repo/logs/autogen_plan.txt'')
     (snd (save_plan_to_file example_file [''Deploy''] default_filename
        (snd (save_plan_to_file example_file [''Collect data'', ''Train model''] default_filename example_fs))))"
    by blast+
  then have "read_text (parse_path ''/repo/logs/autogen_plan.txt'')
     (snd (save_plan_to_file example_file [''Deploy''] default_filename
        (snd (save_plan_to_file example_file [''Collect data'', ''Train model''] default_filename example_fs)))) =
     Inr ''1. Deploy\<newline>''"
    and "read_text (parse_path ''/repo/logs/autogen_plan.txt'')
     (snd (save_plan_to_file example_file [''Deploy''] default_filename example_fs)) =
     Inr ''1. Deploy\<newline>''"
    by (simp_all only: pt)
  with first second alone show ?thesis by (intro conjI)
qed

text \<open>
  Claim C4. \<^verbatim>\<open>get_llm_config\<close> returns a dictionary with the one key
  \<^verbatim>\<open>config_list\<close>, whose value is a list of one entry: the model \<^verbatim>\<open>mistral:latest\<close>,
  the API key \<^verbatim>\<open>NA\<close>, and as base URL the value of \<^verbatim>\<open>OLLAMA_BASE_URL\<close> as it is when
  the variable is set, and \<^verbatim>\<open>http://localhost:11434/v1\<close> when it is not set.
\<close>

theorem get_llm_config_entry:
  "(env ''OLLAMA_BASE_URL'' = Some v \<longrightarrow>
      get_llm_config env =
        [(''config_list'', [[(''model'', ''mistral:latest''), (''api_key'', ''NA''),
           (''base_url'', v)]])]) \<and>
   (env ''OLLAMA_BASE_URL'' = None \<longrightarrow>
      get_llm_config env =
        [(''config_list'', [[(''model'', ''mistral:latest''), (''api_key'', ''NA''),
           (''base_url'', ''http://localhost:11434/v1'')]])])"
  by (simp add: get_llm_config_def getenv_def Let_def)

text \<open>
  Both cases at an instance: the variable set to \<^verbatim>\<open>http://example:9999/v1\<close>, and the
  empty environment.
\<close>

theorem get_llm_config_entry_witness:
  "[''OLLAMA_BASE_URL'' \<mapsto> ''http://example:9999/v1''] ''OLLAMA_BASE_URL'' =
     Some ''http://example:9999/v1'' \<and>
   get_llm_config [''OLLAMA_BASE_URL'' \<mapsto> ''http://example:9999/v1''] =
     [(''config_list'', [[(''model'', ''mistral:latest''), (''api_key'', ''NA''),
        (''base_url'', ''http://example:9999/v1'')]])] \<and>
   (Map.empty :: environ) ''OLLAMA_BASE_URL'' = None \<and>
   get_llm_config Map.empty =
     [(''config_list'', [[(''model'', ''mistral:latest''), (''api_key'', ''NA''),
        (''base_url'', ''http://localhost:11434/v1'')]])]"
proof -
  let ?env = "[''OLLAMA_BASE_URL'' \<mapsto> ''http://example:9999/v1'']"
  have s: "?env ''OLLAMA_BASE_URL'' = Some ''http://example:9999/v1''" by simp
  have u: "(Map.empty :: environ) ''OLLAMA_BASE_URL'' = None" by simp
  from get_llm_config_entry [of ?env "''http://example:9999/v1''"] s
  have a: "get_llm_config ?env =
     [(''config_list'', [[(''model'', ''mistral:latest''), (''api_key'', ''NA''),
        (''base_url'', ''http://example:9999/v1'')]])]"
    by blast
  from get_llm_config_entry [of Map.empty] u
  have b: "get_llm_config Map.empty =
     [(''config_list'', [[(''model'', ''mistral:latest''), (''api_key'', ''NA''),
        (''base_url'', ''http://localhost:11434/v1'')]])]"
    by blast
  from s a u b show ?thesis by (intro conjI)
qed

text \<open>
  Claim C5. The group chat is built with a maximum of ten rounds, and in every session
  reachable from the submission of a goal, whatever the goal and whatever the language
  model answers, the round counter is at most ten. The conversation run to its end is
  terminated and has at most ten messages. The turn loop is the one modelled from the
  spec; the maximum, the agents and the empty message list come from
  \<^verbatim>\<open>create_planner_executor_agents\<close>.
\<close>

theorem round_counter_bounded:
  "max_round (manager_groupchat (snd (create_planner_executor_agents env))) = 10 \<and>
   round_counter (run_turns b (fst (create_planner_executor_agents env))
      (manager_groupchat (snd (create_planner_executor_agents env))) goal n) \<le> 10 \<and>
   length (transcript (initiate_chat b (create_planner_executor_agents env) goal)) \<le> 10 \<and>
   terminated (initiate_chat b (create_planner_executor_agents env) goal)"
proof -
  let ?gc = "manager_groupchat (snd (create_planner_executor_agents env))"
  let ?u = "fst (create_planner_executor_agents env)"
  have m: "max_round ?gc = 10" by (rule created_max_round)
  have r: "round_counter (run_turns b ?u ?gc goal k) \<le> 10" for k
    using run_turns_round [of b ?u ?gc goal k] by (simp only: m)
  have i: "initiate_chat b (create_planner_executor_agents env) goal = run_turns b ?u ?gc goal 11"
    by (simp add: initiate_chat_def case_prod_unfold m del: run_turns.simps)
  have "length (transcript (run_turns b ?u ?gc goal 11)) \<le> 10"
    using r [of 11] by (simp only: run_turns_length)
  with m r i initiate_chat_terminated [of b "create_planner_executor_agents env" goal]
  show ?thesis by simp
qed

text \<open>
  An instance: a language model that never judges the exchange complete, asked for 25
  turns.
\<close>

theorem round_counter_bounded_witness:
  "max_round (manager_groupchat (snd (create_planner_executor_agents Map.empty))) = 10 \<and>
   round_counter (run_turns executor_first (fst (create_planner_executor_agents Map.empty))
      (manager_groupchat (snd (create_planner_executor_agents Map.empty))) ''goal'' 25) \<le> 10 \<and>
   length (transcript (initiate_chat executor_first (create_planner_executor_agents Map.empty) ''goal'')) \<le> 10 \<and>
   terminated (initiate_chat executor_first (create_planner_executor_agents Map.empty) ''goal'')"
  by (rule round_counter_bounded)




text \<open>
  Claim C7. \<^verbatim>\<open>save_plan_to_file\<close> handles no error and retries nothing. When creating
  the directory fails with an error, the call fails with that same error, in the state the
  failed creation left, and no file has been opened or written. When the directory step
  succeeds and writing the file fails with an error, the call fails with that same error.
  In every case the call opens a file for writing at most once and writes at most once.
\<close>

theorem save_plan_errors_propagate:
  assumes "parents (parse_path this_file) 2 = Inr root"
  shows
    "(path_mkdir True True (truediv root ''logs'') s = (Inl e, s1) \<longrightarrow>
        save_plan_to_file this_file steps filename s = (Inl (OSError e), s1) \<and>
        open_attempts s1 = open_attempts s \<and> write_attempts s1 = write_attempts s) \<and>
     (path_mkdir True True (truediv root ''logs'') s = (Inr (), s2) \<and>
      write_text (truediv (truediv root ''logs'') filename) (plan_text steps) s2 = (Inl e', s3) \<longrightarrow>
        save_plan_to_file this_file steps filename s = (Inl (OSError e'), s3)) \<and>
     open_attempts (snd (save_plan_to_file this_file steps filename s)) \<le> open_attempts s + 1 \<and>
     write_attempts (snd (save_plan_to_file this_file steps filename s)) \<le> write_attempts s + 1"
proof -
  have "save_plan_to_file this_file steps filename s = (Inl (OSError e), s1) \<and>
      open_attempts s1 = open_attempts s \<and> write_attempts s1 = write_attempts s"
    if m: "path_mkdir True True (truediv root ''logs'') s = (Inl e, s1)"
    using path_mkdir_attempts [OF m] assms m by (simp add: save_plan_to_file_def)
  moreover have "save_plan_to_file this_file steps filename s = (Inl (OSError e'), s3)"
    if "path_mkdir True True (truediv root ''logs'') s = (Inr (), s2)"
      and "write_text (truediv (truediv root ''logs'') filename) (plan_text steps) s2 = (Inl e', s3)"
    using that assms by (simp add: save_plan_to_file_def Let_def plan_text_def)
  moreover have "open_attempts (snd (save_plan_to_file this_file steps filename s)) \<le> open_attempts s + 1 \<and>
     write_attempts (snd (save_plan_to_file this_file steps filename s)) \<le> write_attempts s + 1"
    by (rule save_plan_to_file_attempts) (rule prod.collapse [symmetric])
  ultimately show ?thesis by blast
qed

text \<open>
  Two instances: on the read-only file system the directory cannot be created, and the
  call fails with \<^verbatim>\<open>EROFS\<close> without opening a file; on the full disk the write is
  refused, and the call fails with \<^verbatim>\<open>ENOSPC\<close> after one write attempt.
\<close>

theorem save_plan_errors_propagate_witness:
  "parents (parse_path example_file) 2 = Inr (PPath ''/'' [''repo'']) \<and>
   path_mkdir True True (PPath ''/'' [''repo'', ''logs'']) readonly_fs =
     (Inl EROFS, logged (Mkdir (PPath ''/'' [''repo'', ''logs''])) readonly_fs) \<and>
   save_plan_to_file example_file [''Deploy''] default_filename readonly_fs =
     (Inl (OSError EROFS), logged (Mkdir (PPath ''/'' [''repo'', ''logs''])) readonly_fs) \<and>
   open_attempts (logged (Mkdir (PPath ''/'' [''repo'', ''logs''])) readonly_fs) = 0 \<and>
   path_mkdir True True (PPath ''/'' [''repo'', ''logs'']) full_fs =
     (Inr (), logged (Mkdir (PPath ''/'' [''repo'', ''logs''])) full_fs) \<and>
   fst (write_text (PPath ''/'' [''repo'', ''logs'', ''autogen_plan.txt'']) (plan_text [''Deploy''])
     (logged (Mkdir (PPath ''/'' [''repo'', ''logs''])) full_fs)) = Inl ENOSPC \<and>
   fst (save_plan_to_file example_file [''Deploy''] default_filename full_fs) = Inl (OSError ENOSPC) \<and>
   write_attempts (snd (save_plan_to_file example_file [''Deploy''] default_filename full_fs)) \<le> 1"
proof -
  let ?logs = "PPath ''/'' [''repo'', ''logs'']"
  let ?path = "PPath ''/'' [''repo'', ''logs'', ''autogen_plan.txt'']"
  note inst = save_plan_errors_propagate [OF example_root, unfolded example_logs,
      where filename = default_filename and steps = "[''Deploy'']", unfolded example_target]
  have a: "save_plan_to_file example_file [''Deploy''] default_filename readonly_fs =
     (Inl (OSError EROFS), logged (Mkdir ?logs) readonly_fs)"
    using inst [of readonly_fs EROFS "logged (Mkdir ?logs) readonly_fs"] readonly_mkdir by blast
  have b: "open_attempts (logged (Mkdir ?logs) readonly_fs) = 0"
    by (simp add: open_attempts_def readonly_fs_def example_fs_def)
  have m: "path_mkdir True True ?logs full_fs = (Inr (), logged (Mkdir ?logs) full_fs)"
    by (rule path_mkdir_exists [OF full_is_dir])
  have w: "write_text ?path (plan_text [''Deploy'']) (logged (Mkdir ?logs) full_fs) =
      (Inl ENOSPC, snd (write_text ?path (plan_text [''Deploy'']) (logged (Mkdir ?logs) full_fs)))"
    by (simp add: full_write)
  have c: "fst (save_plan_to_file example_file [''Deploy''] default_filename full_fs) = Inl (OSError ENOSPC)"
    using inst [of full_fs _ _ "logged (Mkdir ?logs) full_fs" ENOSPC
        "snd (write_text ?path (plan_text [''Deploy'']) (logged (Mkdir ?logs) full_fs))"] m w
    by simp
  have d: "write_attempts (snd (save_plan_to_file example_file [''Deploy''] default_filename full_fs)) \<le> 1"
    using inst [of full_fs] by (simp add: write_attempts_def full_fs_def used_fs_def example_fs_def)
  have w': "fst (write_text ?path (plan_text [''Deploy'']) (logged (Mkdir ?logs) full_fs)) = Inl ENOSPC"
    by (simp add: full_write)
  from example_root readonly_mkdir a b m w' c d show ?thesis by (intro conjI)
qed

text \<open>
  Claim C8. Creating the \<^verbatim>\<open>logs\<close> directory is idempotent. When the directory exists,
  the directory step of \<^verbatim>\<open>save_plan_to_file\<close> does not raise and changes nothing in the
  tree. After a call whose directory step succeeded, whatever the call then returned, the
  directory exists, so in a second call, with any steps and any file name, the directory
  step succeeds again: the second call returns or fails exactly as its write does.
\<close>

theorem logs_dir_creation_idempotent:
  assumes "parents (parse_path this_file) 2 = Inr root"
  shows
    "(is_dir (truediv root ''logs'') s \<longrightarrow>
        path_mkdir True True (truediv root ''logs'') s =
          (Inr (), logged (Mkdir (truediv root ''logs'')) s)) \<and>
     (path_mkdir True True (truediv root ''logs'') s = (Inr (), s0) \<and>
      save_plan_to_file this_file steps filename s = (r, s1) \<longrightarrow>
        is_dir (truediv root ''logs'') s1 \<and>
        path_mkdir True True (truediv root ''logs'') s1 =
          (Inr (), logged (Mkdir (truediv root ''logs'')) s1) \<and>
        save_plan_to_file this_file steps' filename' s1 =
          (case write_text (truediv (truediv root ''logs'') filename') (plan_text steps')
                  (logged (Mkdir (truediv root ''logs'')) s1) of
             (Inl e, s2) \<Rightarrow> (Inl (OSError e), s2)
           | (Inr u, s2) \<Rightarrow> (Inr (str_path (truediv (truediv root ''logs'') filename')), s2)))"
proof (intro conjI impI)
  assume "is_dir (truediv root ''logs'') s"
  then show "path_mkdir True True (truediv root ''logs'') s =
      (Inr (), logged (Mkdir (truediv root ''logs'')) s)"
    by (rule path_mkdir_exists)
next
  assume a: "path_mkdir True True (truediv root ''logs'') s = (Inr (), s0) \<and>
      save_plan_to_file this_file steps filename s = (r, s1)"
  then show d: "is_dir (truediv root ''logs'') s1"
    using save_plan_to_file_is_dir [OF assms] by blast
  then show "path_mkdir True True (truediv root ''logs'') s1 =
      (Inr (), logged (Mkdir (truediv root ''logs'')) s1)"
    by (rule path_mkdir_exists)
  from assms d show "save_plan_to_file this_file steps' filename' s1 =
          (case write_text (truediv (truediv root ''logs'') filename') (plan_text steps')
                  (logged (Mkdir (truediv root ''logs'')) s1) of
             (Inl e, s2) \<Rightarrow> (Inl (OSError e), s2)
           | (Inr u, s2) \<Rightarrow> (Inr (str_path (truediv (truediv root ''logs'') filename')), s2))"
    by (rule save_plan_to_file_dir_exists)
qed

text \<open>
  Instances: the used checkout, where the directory exists; and the fresh checkout,
  where the first call creates the directory and the second call finds it and returns.
\<close>

theorem logs_dir_creation_idempotent_witness:
  "parents (parse_path example_file) 2 = Inr (PPath ''/'' [''repo'']) \<and>
   is_dir (PPath ''/'' [''repo'', ''logs'']) used_fs \<and>
   path_mkdir True True (PPath ''/'' [''repo'', ''logs'']) used_fs =
     (Inr (), logged (Mkdir (PPath ''/'' [''repo'', ''logs''])) used_fs) \<and>
   \<not> is_dir (PPath ''/'' [''repo'', ''logs'']) example_fs \<and>
   fst (path_mkdir True True (PPath ''/'' [''repo'', ''logs'']) example_fs) = Inr () \<and>
   fst (save_plan_to_file example_file [''Collect data''] default_filename example_fs) =
     Inr ''/repo/logs/autogen_plan.txt'' \<and>
   is_dir (PPath ''/'' [''repo'', ''logs''])
     (snd (save_plan_to_file example_file [''Collect data''] default_filename example_fs)) \<and>
   fst (path_mkdir True True (PPath ''/'' [''repo'', ''logs''])
     (snd (save_plan_to_file example_file [''Collect data''] default_filename example_fs))) = Inr () \<and>
   fst (save_plan_to_file example_file [''Deploy''] default_filename
     (snd (save_plan_to_file example_file [''Collect data''] default_filename example_fs))) =
     Inr ''/repo/logs/autogen_plan.txt''"
proof -
  let ?logs = "PPath ''/'' [''repo'', ''logs'']"
  let ?s1 = "snd (save_plan_to_file example_file [''Collect data''] default_filename example_fs)"
  note inst = logs_dir_creation_idempotent [OF example_root, unfolded example_logs]
  have a: "path_mkdir True True ?logs used_fs = (Inr (), logged (Mkdir ?logs) used_fs)"
    using inst [of used_fs] used_is_dir by blast
  have n: "\<not> is_dir ?logs example_fs"
    by (simp add: is_dir_def locate_def node_at_def example_fs_def)
  have m: "path_mkdir True True ?logs example_fs = (Inr (), snd (path_mkdir True True ?logs example_fs))"
    by (simp add: example_mkdir)
  have f: "save_plan_to_file example_file [''Collect data''] default_filename example_fs =
      (fst (save_plan_to_file example_file [''Collect data''] default_filename example_fs), ?s1)"
    by simp
  from inst [of example_fs "snd (path_mkdir True True ?logs example_fs)" "[''Collect data'']"
      default_filename _ ?s1] m f
  have d: "is_dir ?logs ?s1"
    and p: "path_mkdir True True ?logs ?s1 = (Inr (), logged (Mkdir ?logs) ?s1)"
    by blast+
  have "fst (path_mkdir True True ?logs example_fs) = Inr ()" by (simp add: example_mkdir)
  moreover have "fst (path_mkdir True True ?logs ?s1) = Inr ()" by (simp add: p)
  moreover have "fst (save_plan_to_file example_file [''Collect data''] default_filename example_fs) =
      Inr ''/repo/logs/autogen_plan.txt''" by (rule example_save)
  moreover have "fst (save_plan_to_file example_file [''Deploy''] default_filename ?s1) =
      Inr ''/repo/logs/autogen_plan.txt''"
    using example_save_twice [of "[''Deploy'']" "[''Collect data'']"] by (metis fst_conv)
  ultimately show ?thesis using example_root used_is_dir a n d by (intro conjI)
qed

text \<open>
  Claim C9, as amended. For a file name that is an absolute path, the \<^verbatim>\<open>logs\<close>
  directory is dropped from the path: a call that returns has written the file that the file
  name denotes, and returns the file name as \<^verbatim>\<open>pathlib\<close> prints it, that is without
  repeated slashes, single-dot components and a trailing slash. The file name comes back
  unchanged when it is already in that form.
\<close>

theorem save_plan_absolute_filename:
  assumes "filename \<noteq> []" and "hd filename = CHR ''/''"
    and "save_plan_to_file this_file steps filename s = (Inr p, s')"
  shows "p = str_path (parse_path filename) \<and>
    read_text (parse_path filename) s' = Inr (plan_text steps) \<and>
    (normal_path q \<and> filename = str_path q \<longrightarrow> p = filename)"
proof -
  from assms(3) obtain root where p: "p = str_path (truediv (truediv root ''logs'') filename)"
    and pp: "parse_path p = truediv (truediv root ''logs'') filename"
    and r: "read_text (parse_path p) s' = Inr (plan_text steps)"
    by (rule save_plan_to_file_Inr)
  have t: "truediv (truediv root ''logs'') filename = parse_path filename"
    by (rule truediv_absolute [OF assms(1,2)])
  have "p = filename" if "normal_path q" and "filename = str_path q"
    using that p t by (simp add: parse_str_path)
  with p pp r t show ?thesis by simp
qed

text \<open>
  An instance: \<^verbatim>\<open>/tmp/plan.txt\<close> in the fresh checkout. The file written is not below
  the \<^verbatim>\<open>logs\<close> directory of the repository.
\<close>

theorem save_plan_absolute_filename_witness:
  "''/tmp/plan.txt'' \<noteq> [] \<and> hd ''/tmp/plan.txt'' = CHR ''/'' \<and>
   save_plan_to_file example_file [''Deploy''] ''/tmp/plan.txt'' example_fs =
     (Inr ''/tmp/plan.txt'',
      snd (save_plan_to_file example_file [''Deploy''] ''/tmp/plan.txt'' example_fs)) \<and>
   normal_path (PPath ''/'' [''tmp'', ''plan.txt'']) \<and>
   ''/tmp/plan.txt'' = str_path (PPath ''/'' [''tmp'', ''plan.txt'']) \<and>
   read_text (PPath ''/'' [''tmp'', ''plan.txt''])
     (snd (save_plan_to_file example_file [''Deploy''] ''/tmp/plan.txt'' example_fs)) =
     Inr ''1. Deploy\<newline>'' \<and>
   take 2 (ptail (PPath ''/'' [''tmp'', ''plan.txt''])) \<noteq> [''repo'', ''logs'']"
proof -
  have pt: "plan_text [''Deploy''] = ''1. Deploy\<newline>''"
    by (simp add: plan_text_def plan_lines_def str_nat.simps digit_char_def)
  have pp: "parse_path ''/tmp/plan.txt'' = PPath ''/'' [''tmp'', ''plan.txt'']"
    by (simp add: parse_path_def split_sep_def)
  have a: "''/tmp/plan.txt'' \<noteq> []" and b: "hd ''/tmp/plan.txt'' = CHR ''/''" by simp_all
  note c = example_tmp_saved(1) [of "[''Deploy'']"]
  have n: "normal_path (PPath ''/'' [''tmp'', ''plan.txt''])"
    by (simp add: normal_path_def normal_part_def)
  have st: "''/tmp/plan.txt'' = str_path (PPath ''/'' [''tmp'', ''plan.txt''])"
    by (simp add: str_path_def)
  from save_plan_absolute_filename [OF a b c, of "PPath ''/'' [''tmp'', ''plan.txt'']"]
  have "read_text (parse_path ''/tmp/plan.txt'')
     (snd (save_plan_to_file example_file [''Deploy''] ''/tmp/plan.txt'' example_fs)) =
     Inr (plan_text [''Deploy''])"
    by blast
  then have "read_text (PPath ''/'' [''tmp'', ''plan.txt''])
     (snd (save_plan_to_file example_file [''Deploy''] ''/tmp/plan.txt'' example_fs)) =
     Inr ''1. Deploy\<newline>''"
    unfolding pt pp .
  moreover have "take 2 (ptail (PPath ''/'' [''tmp'', ''plan.txt''])) \<noteq> [''repo'', ''logs'']"
    by simp
  ultimately show ?thesis using a b c n st by (intro conjI)
qed

text \<open>
  Claim C9 as stated, the file name returned unchanged for every absolute path, fails
  for a file name that \<^verbatim>\<open>pathlib\<close> normalises: for \<^verbatim>\<open>/tmp//plan.txt\<close> the call returns
  \<^verbatim>\<open>/tmp/plan.txt\<close>.
\<close>

theorem save_plan_absolute_filename_counterexample:
  "''/tmp//plan.txt'' \<noteq> [] \<and> hd ''/tmp//plan.txt'' = CHR ''/'' \<and>
   save_plan_to_file example_file [] ''/tmp//plan.txt'' example_fs =
     (Inr ''/tmp/plan.txt'',
      snd (save_plan_to_file example_file [] ''/tmp//plan.txt'' example_fs)) \<and>
   ''/tmp/plan.txt'' \<noteq> ''/tmp//plan.txt''"
  using example_tmp_saved(2) [of "[]"] by simp

text \<open>
  Claim C10. Two calls of \<^verbatim>\<open>save_plan_to_file\<close> with the same steps and the same file
  name, in any two states of the file system (different earlier content of the file,
  different working directory, different history), that both return, return the same path
  string and leave the same text in the file: the text of the steps. The function has no
  access to the process environment: the model takes no environment, as the source reads
  none.
\<close>

theorem save_plan_deterministic:
  assumes "save_plan_to_file this_file steps filename s = (Inr p, t)"
    and "save_plan_to_file this_file steps filename s' = (Inr p', t')"
  shows "p' = p \<and> read_text (parse_path p) t = Inr (plan_text steps) \<and>
    read_text (parse_path p') t' = Inr (plan_text steps)"
proof -
  from assms(1) obtain root where "parents (parse_path this_file) 2 = Inr root"
    and "p = str_path (truediv (truediv root ''logs'') filename)"
    and "read_text (parse_path p) t = Inr (plan_text steps)"
    by (rule save_plan_to_file_Inr)
  moreover from assms(2) obtain root' where "parents (parse_path this_file) 2 = Inr root'"
    and "p' = str_path (truediv (truediv root' ''logs'') filename)"
    and "read_text (parse_path p') t' = Inr (plan_text steps)"
    by (rule save_plan_to_file_Inr)
  ultimately show ?thesis by simp
qed

text \<open>
  An instance: the fresh checkout and the used checkout, which differ in the working
  directory and in what the file held before.
\<close>

theorem save_plan_deterministic_witness:
  "save_plan_to_file example_file [''Collect data'', ''Train model''] default_filename example_fs =
     (Inr ''/repo/logs/autogen_plan.txt'',
      snd (save_plan_to_file example_file [''Collect data'', ''Train model''] default_filename example_fs)) \<and>
   save_plan_to_file example_file [''Collect data'', ''Train model''] default_filename used_fs =
     (Inr ''/repo/logs/autogen_plan.txt'',
      snd (save_plan_to_file example_file [''Collect data'', ''Train model''] default_filename used_fs)) \<and>
   read_text (parse_path ''/repo/logs/autogen_plan.txt'')
     (snd (save_plan_to_file example_file [''Collect data'', ''Train model''] default_filename example_fs)) =
     Inr ''1. Collect data\<newline>2. Train model\<newline>'' \<and>
   read_text (parse_path ''/repo/logs/autogen_plan.txt'')
     (snd (save_plan_to_file example_file [''Collect data'', ''Train model''] default_filename used_fs)) =
     Inr ''1. Collect data\<newline>2. Train model\<newline>''"
proof -
  note a = example_saved [of "[''Collect data'', ''Train model'']"]
  note b = used_save [of "[''Collect data'', ''Train model'']"]
  from save_plan_deterministic [OF a b]
  have "read_text (parse_path ''/repo/logs/autogen_plan.txt'')
     (snd (save_plan_to_file example_file [''Collect data'', ''Train model''] default_filename example_fs)) =
     Inr ''1. Collect data\<newline>2. Train model\<newline>''"
    and "read_text (parse_path ''/repo/logs/autogen_plan.txt'')
     (snd (save_plan_to_file example_file [''Collect data'', ''Train model''] default_filename used_fs)) =
     Inr ''1. Collect data\<newline>2. Train model\<newline>''"
    by (simp_all only: plan_text_example)
  with a b show ?thesis by (intro conjI)
qed

end
